theory Spec2Isabelle
  imports Complex_Main "HOL-Library.Multiset" "HOL-Library.Log_Nat" "HOL-Library.Sublist"
begin

section \<open>Errors\<close>

text \<open>
  Every exception the modelled code can raise is a value: a function that may raise
  returns \<open>py_error + 'a\<close>, with \<open>Inl\<close> for the exception. \<open>RequestException\<close> is
  \<^verbatim>\<open>requests.RequestException\<close> (a failed or non-2xx HTTP call), \<open>CandidateCountNotFound\<close>
  is the bare \<^verbatim>\<open>Exception\<close> raised by \<^verbatim>\<open>get_total_candidates\<close>, and \<open>ValidationError\<close> is
  pydantic's.
\<close>

datatype py_error =
    ZeroDivisionError
  | OverflowError
  | IndexError
  | KeyError
  | AttributeError
  | TypeError
  | ValidationError
  | RequestException
  | CandidateCountNotFound

section \<open>Data model (src/models/Resume.py)\<close>

text \<open>
  \<^verbatim>\<open>Experience\<close> and \<^verbatim>\<open>Resume\<close> are pydantic models. An \<^verbatim>\<open>Optional[str]\<close> field is a
  \<open>string option\<close> (\<open>None\<close> is Python's \<^verbatim>\<open>None\<close>); \<^verbatim>\<open>filling_percentage: int\<close> is an
  unbounded Python integer, with no range constraint in the model class.
\<close>

record experience =
  position :: "string option"
  duration :: "string option"
  details :: "string option"

record resume =
  href :: string
  salary_expectation :: "string option"
  experience :: "experience list option"
  filling_percentage :: int

text \<open>\<^verbatim>\<open>Resume.__lt__\<close>: the only comparison the class defines.\<close>

definition resume_lt :: "resume \<Rightarrow> resume \<Rightarrow> bool" where
  "resume_lt a b \<longleftrightarrow> filling_percentage a < filling_percentage b"

section \<open>Ranking (TelegramResumeBot.search\_resumes, lines 380-382)\<close>

text \<open>
  \<^verbatim>\<open>combined_results.sort(reverse=True)\<close> is Python's built-in list sort. It compares
  elements with \<^verbatim>\<open>__lt__\<close> only and is stable; with \<^verbatim>\<open>reverse=True\<close> the list is
  reversed, sorted ascending and reversed again, which keeps equal elements in their
  original order. The ascending stable sort is modelled by insertion: an element is
  placed in front of the first element it is less than.
\<close>

fun insort_lt :: "resume \<Rightarrow> resume list \<Rightarrow> resume list" where
  "insort_lt x [] = [x]"
| "insort_lt x (y # ys) = (if resume_lt x y then x # y # ys else y # insort_lt x ys)"

definition sort_lt :: "resume list \<Rightarrow> resume list" where
  "sort_lt xs = foldl (\<lambda>acc x. insort_lt x acc) [] xs"

definition sort_reverse :: "resume list \<Rightarrow> resume list" where
  "sort_reverse xs = rev (sort_lt (rev xs))"

text \<open>
  \<^verbatim>\<open>combined_results = work_ua_results + robota_ua_results\<close>, the sort, and the slice
  \<^verbatim>\<open>combined_results[:5]\<close>.
\<close>

definition combined_results :: "resume list \<Rightarrow> resume list \<Rightarrow> resume list" where
  "combined_results work_ua_results robota_ua_results =
     sort_reverse (work_ua_results @ robota_ua_results)"

definition top_resumes :: "resume list \<Rightarrow> resume list \<Rightarrow> resume list" where
  "top_resumes work_ua_results robota_ua_results =
     take 5 (combined_results work_ua_results robota_ua_results)"

section \<open>Python arithmetic: true division, float product, round, ceil\<close>

text \<open>
  \<^verbatim>\<open>a / b\<close> on two Python integers and \<^verbatim>\<open>x * 100\<close> on a float are IEEE 754 binary64
  operations: the exact result is rounded to the nearest double, ties to the even
  significand. A double is represented by the rational number it denotes.
  \<open>float_exponent q\<close> is the binary exponent \<open>e\<close> of a positive \<open>q\<close>
  (\<open>2\<^sup>e \<le> q < 2\<^sup>e\<^sup>+\<^sup>1\<close>), doubles near \<open>q\<close> are the multiples of \<open>2\<^sup>e\<^sup>-\<^sup>5\<^sup>2\<close>
  (of \<open>2\<^sup>-\<^sup>1\<^sup>0\<^sup>7\<^sup>4\<close> in the subnormal range), and \<open>round_double q\<close> is the nearest of them.
\<close>

definition round_half_even :: "rat \<Rightarrow> int" where
  "round_half_even q =
     (let f = \<lfloor>q\<rfloor>; d = q - of_int f
      in if d < 1 / 2 then f else if 1 / 2 < d then f + 1 else if even f then f else f + 1)"

definition float_exponent :: "rat \<Rightarrow> int" where
  "float_exponent q =
     (let (a, b) = quotient_of q;
          d = bitlen a - bitlen b
      in if 2 powi d \<le> q then d else d - 1)"

definition ulp_exponent :: "rat \<Rightarrow> int" where
  "ulp_exponent q = max (float_exponent \<bar>q\<bar> - 52) (- 1074)"

definition round_double :: "rat \<Rightarrow> rat" where
  "round_double q =
     (if q = 0 then 0
      else of_int (round_half_even (q / 2 powi ulp_exponent q)) * 2 powi ulp_exponent q)"

text \<open>
  \<^verbatim>\<open>a / b\<close> for integers: \<^verbatim>\<open>ZeroDivisionError\<close> when \<^verbatim>\<open>b\<close> is 0, \<^verbatim>\<open>OverflowError\<close> when the
  rounded quotient is beyond the largest double, otherwise the correctly rounded quotient.
\<close>

definition true_div :: "int \<Rightarrow> int \<Rightarrow> py_error + rat" where
  "true_div a b =
     (if b = 0 then Inl ZeroDivisionError
      else let r = round_double (of_int a / of_int b)
           in if 2 ^ 1024 \<le> \<bar>r\<bar> then Inl OverflowError else Inr r)"

text \<open>
  The product of two doubles, for products below \<open>2\<^sup>1\<^sup>0\<^sup>2\<^sup>4\<close> (the only use below
  multiplies a double of at most 1 by 100, so the product never overflows to infinity).
\<close>

definition float_mul :: "rat \<Rightarrow> rat \<Rightarrow> rat" where
  "float_mul x y = round_double (x * y)"

text \<open>
  \<^verbatim>\<open>round(x)\<close> on a float returns the nearest integer, a half going to the even
  neighbour; \<^verbatim>\<open>math.ceil(x)\<close> returns the least integer not below \<^verbatim>\<open>x\<close>. Both are exact
  on the double's value.
\<close>

definition py_round :: "rat \<Rightarrow> int" where
  "py_round x = round_half_even x"

definition py_ceil :: "rat \<Rightarrow> int" where
  "py_ceil x = \<lceil>x\<rceil>"

section \<open>Completeness score (WorkUaParser.parse\_resume, lines 372-388)\<close>

text \<open>
  \<^verbatim>\<open>tokens\<close> is \<^verbatim>\<open>word_tokenize(all_text.lower())\<close>; the tokenizer (nltk), the stop-word
  list (\<^verbatim>\<open>stopwords.words("english")\<close>) and \<^verbatim>\<open>str.isalnum\<close> are library code and are
  parameters here. The score is
  \<^verbatim>\<open>round((meaningful_words_count / total_words) * 100 if total_words else 0)\<close>:
  the quotient is formed first and then multiplied by 100, each step rounded to a double;
  with no token the argument of \<^verbatim>\<open>round\<close> is the integer 0.
\<close>

definition meaningful_words :: "(string \<Rightarrow> bool) \<Rightarrow> string list \<Rightarrow> string list \<Rightarrow> string list" where
  "meaningful_words isalnum stop_words tokens =
     filter (\<lambda>word. isalnum word \<and> word \<notin> set stop_words) tokens"

definition filling_percentage_of :: "(string \<Rightarrow> bool) \<Rightarrow> string list \<Rightarrow> string list \<Rightarrow> py_error + int" where
  "filling_percentage_of isalnum stop_words tokens =
     (let total_words = int (length tokens);
          meaningful_words_count = int (length (meaningful_words isalnum stop_words tokens))
      in if total_words \<noteq> 0
         then (case true_div meaningful_words_count total_words of
                 Inl e \<Rightarrow> Inl e
               | Inr x \<Rightarrow> Inr (py_round (float_mul x 100)))
         else Inr 0)"

section \<open>Page count (WorkUaParser.get\_resume\_pages, line 226)\<close>

text \<open>\<^verbatim>\<open>total_pages = math.ceil(total_candidates / 14)\<close>.\<close>

definition total_pages_of :: "int \<Rightarrow> py_error + int" where
  "total_pages_of total_candidates =
     (case true_div total_candidates 14 of Inl e \<Rightarrow> Inl e | Inr x \<Rightarrow> Inr (py_ceil x))"

section \<open>Fuzzy vocabulary matcher (src/utils/nlp.py)\<close>

text \<open>
  \<^verbatim>\<open>process.extractOne(word, vocabulary, scorer=fuzz.token_sort_ratio)\<close> is library code
  (rapidfuzz). It returns \<^verbatim>\<open>None\<close> for a \<^verbatim>\<open>None\<close> query and for an empty collection of
  choices; otherwise it scans the choices in iteration order, keeps the best one so far
  and replaces it only by a strictly higher score, and returns that choice with its
  score. The scorer (\<^verbatim>\<open>token_sort_ratio\<close>, a float between 0 and 100) is a parameter; the
  vocabulary is the list of a dict's keys in insertion order.
\<close>

fun extractOne_scan :: "(string \<Rightarrow> rat) \<Rightarrow> string \<times> rat \<Rightarrow> string list \<Rightarrow> string \<times> rat" where
  "extractOne_scan score best [] = best"
| "extractOne_scan score best (choice # choices) =
     (if snd best < score choice
      then extractOne_scan score (choice, score choice) choices
      else extractOne_scan score best choices)"

definition extractOne :: "(string \<Rightarrow> string \<Rightarrow> rat) \<Rightarrow> string option \<Rightarrow> string list \<Rightarrow> (string \<times> rat) option" where
  "extractOne scorer query choices =
     (case query of
        None \<Rightarrow> None
      | Some q \<Rightarrow>
          (case choices of
             [] \<Rightarrow> None
           | choice # rest \<Rightarrow> Some (extractOne_scan (scorer q) (choice, scorer q choice) rest)))"

text \<open>
  \<^verbatim>\<open>get_most_similar_word\<close>: the match is returned when there is one and its score is
  greater than \<^verbatim>\<open>int(os.getenv("WORD_SIMILARITY_THRESHOLD"))\<close>; the function falls off its
  end, returning \<^verbatim>\<open>None\<close>, otherwise. The threshold is a parameter.
\<close>

definition get_most_similar_word :: "int \<Rightarrow> (string \<Rightarrow> string \<Rightarrow> rat) \<Rightarrow> string option \<Rightarrow> string list \<Rightarrow> string option" where
  "get_most_similar_word threshold scorer word vocabulary =
     (case extractOne scorer word vocabulary of
        None \<Rightarrow> None
      | Some matched_region \<Rightarrow>
          if of_int threshold < snd matched_region then Some (fst matched_region) else None)"


section \<open>Python strings, values and dicts\<close>

text \<open>
  A string is a list of characters with code points below 256. \<open>isspace\<close> is
  \<^verbatim>\<open>str.isspace\<close> on that range; it includes the no-break space \<^verbatim>\<open>\xa0\<close>.
\<close>

definition isspace :: "char \<Rightarrow> bool" where
  "isspace c \<longleftrightarrow> of_char c \<in> {9, 10, 11, 12, 13, 28, 29, 30, 31, 32, 133, 160 :: nat}"

text \<open>\<^verbatim>\<open>s.strip()\<close>.\<close>

definition strip :: "string \<Rightarrow> string" where
  "strip s = rev (dropWhile isspace (rev (dropWhile isspace s)))"

text \<open>\<^verbatim>\<open>s.split()\<close>: the maximal runs of non-whitespace characters.\<close>

fun split_ws_from :: "string \<Rightarrow> string \<Rightarrow> string list" where
  "split_ws_from cur [] = (if cur = [] then [] else [cur])"
| "split_ws_from cur (c # cs) =
     (if isspace c
      then (if cur = [] then split_ws_from [] cs else cur # split_ws_from [] cs)
      else split_ws_from (cur @ [c]) cs)"

definition split_ws :: "string \<Rightarrow> string list" where
  "split_ws s = split_ws_from [] s"

text \<open>\<^verbatim>\<open>sub in s\<close>.\<close>

fun contains :: "string \<Rightarrow> string \<Rightarrow> bool" where
  "contains sub [] = (sub = [])"
| "contains sub (c # cs) = (take (length sub) (c # cs) = sub \<or> contains sub cs)"

text \<open>
  \<^verbatim>\<open>s.split(sep)\<close> for a non-empty separator: the pieces between the occurrences of
  \<^verbatim>\<open>sep\<close>, found from left to right.
\<close>

function split_from :: "string \<Rightarrow> string \<Rightarrow> string \<Rightarrow> string list" where
  "split_from sep cur s =
     (if s = [] then [cur]
      else if sep \<noteq> [] \<and> take (length sep) s = sep
           then cur # split_from sep [] (drop (length sep) s)
      else split_from sep (cur @ [hd s]) (tl s))"
  by pat_completeness auto
termination
  by (relation "measure (\<lambda>(sep, cur, s). length s)") auto

definition split :: "string \<Rightarrow> string \<Rightarrow> string list" where
  "split sep s = split_from sep [] s"

text \<open>
  \<^verbatim>\<open>s.replace(old, new)\<close>; with an empty \<^verbatim>\<open>old\<close>, \<^verbatim>\<open>new\<close> is inserted before every
  character and at the end.
\<close>

function replace_from :: "string \<Rightarrow> string \<Rightarrow> string \<Rightarrow> string" where
  "replace_from old new s =
     (if s = [] then []
      else if old \<noteq> [] \<and> take (length old) s = old
           then new @ replace_from old new (drop (length old) s)
      else hd s # replace_from old new (tl s))"
  by pat_completeness auto
termination
  by (relation "measure (\<lambda>(old, new, s). length s)") auto

definition replace :: "string \<Rightarrow> string \<Rightarrow> string \<Rightarrow> string" where
  "replace old new s =
     (if old = [] then new @ concat (map (\<lambda>c. c # new) s) else replace_from old new s)"

text \<open>\<^verbatim>\<open>str(n)\<close> for an integer.\<close>

function str_nat :: "nat \<Rightarrow> string" where
  "str_nat n =
     (if n < 10 then [char_of (48 + n)]
      else str_nat (n div 10) @ [char_of (48 + n mod 10)])"
  by pat_completeness auto
termination
  by (relation "measure id") auto

definition str_int :: "int \<Rightarrow> string" where
  "str_int i = (if i < 0 then CHR ''-'' # str_nat (nat (- i)) else str_nat (nat i))"

text \<open>
  The values that flow through the dicts of the program: \<^verbatim>\<open>None\<close>, strings, integers,
  lists, and dicts. A dict is an association list with distinct keys, in insertion order.
\<close>

datatype pyval =
    PNone
  | PStr string
  | PInt int
  | PList "pyval list"
  | PDict "(string \<times> pyval) list"

type_synonym dict = "(string \<times> pyval) list"

text \<open>\<^verbatim>\<open>d[k] = v\<close>, \<^verbatim>\<open>d.get(k)\<close> and \<^verbatim>\<open>d[k]\<close>.\<close>

fun dict_set :: "string \<Rightarrow> pyval \<Rightarrow> dict \<Rightarrow> dict" where
  "dict_set k v [] = [(k, v)]"
| "dict_set k v ((k', v') # d) = (if k' = k then (k, v) # d else (k', v') # dict_set k v d)"

definition dict_get :: "dict \<Rightarrow> string \<Rightarrow> pyval option" where
  "dict_get d k = map_of d k"

definition dict_item :: "dict \<Rightarrow> string \<Rightarrow> py_error + pyval" where
  "dict_item d k = (case map_of d k of None \<Rightarrow> Inl KeyError | Some v \<Rightarrow> Inr v)"




text \<open>A loop body that may raise, run over a list: the first exception ends the loop.\<close>

fun traverse :: "('a \<Rightarrow> py_error + 'b) \<Rightarrow> 'a list \<Rightarrow> py_error + 'b list" where
  "traverse f [] = Inr []"
| "traverse f (x # xs) =
     (case f x of
        Inl e \<Rightarrow> Inl e
      | Inr y \<Rightarrow> (case traverse f xs of Inl e \<Rightarrow> Inl e | Inr ys \<Rightarrow> Inr (y # ys)))"


section \<open>Resume construction (pydantic models)\<close>

text \<open>
  \<^verbatim>\<open>models.Resume(**resume_json)\<close> validates the dict against the field types of the model
  class: each field is looked up under its own name, a key that is no field is ignored,
  a value of the declared type is stored as it is, and \<^verbatim>\<open>None\<close> is accepted where the type
  is \<^verbatim>\<open>Optional\<close>. The callers below pass every field. pydantic's conversions between
  types (a numeric string for an \<^verbatim>\<open>int\<close>) are not modelled: a value of another type is
  \<open>ValidationError\<close> here, as is a missing field.
\<close>

definition optional_str :: "pyval option \<Rightarrow> py_error + string option" where
  "optional_str v =
     (case v of
        Some PNone \<Rightarrow> Inr None
      | Some (PStr s) \<Rightarrow> Inr (Some s)
      | _ \<Rightarrow> Inl ValidationError)"

definition Experience_init :: "pyval \<Rightarrow> py_error + experience" where
  "Experience_init v =
     (case v of
        PDict d \<Rightarrow>
          (case optional_str (dict_get d ''position'') of
             Inl e \<Rightarrow> Inl e
           | Inr p \<Rightarrow>
               (case optional_str (dict_get d ''duration'') of
                  Inl e \<Rightarrow> Inl e
                | Inr du \<Rightarrow>
                    (case optional_str (dict_get d ''details'') of
                       Inl e \<Rightarrow> Inl e
                     | Inr de \<Rightarrow> Inr \<lparr>position = p, duration = du, details = de\<rparr>)))
      | _ \<Rightarrow> Inl ValidationError)"

definition optional_experience_list :: "pyval option \<Rightarrow> py_error + experience list option" where
  "optional_experience_list v =
     (case v of
        Some PNone \<Rightarrow> Inr None
      | Some (PList xs) \<Rightarrow>
          (case traverse Experience_init xs of Inl e \<Rightarrow> Inl e | Inr es \<Rightarrow> Inr (Some es))
      | _ \<Rightarrow> Inl ValidationError)"

definition Resume_init :: "dict \<Rightarrow> py_error + resume" where
  "Resume_init resume_json =
     (case dict_get resume_json ''href'' of
        Some (PStr h) \<Rightarrow>
          (case optional_str (dict_get resume_json ''salary_expectation'') of
             Inl e \<Rightarrow> Inl e
           | Inr s \<Rightarrow>
               (case optional_experience_list (dict_get resume_json ''experience'') of
                  Inl e \<Rightarrow> Inl e
                | Inr es \<Rightarrow>
                    (case dict_get resume_json ''filling_percentage'' of
                       Some (PInt n) \<Rightarrow>
                         Inr \<lparr>href = h, salary_expectation = s, experience = es,
                              filling_percentage = n\<rparr>
                     | _ \<Rightarrow> Inl ValidationError)))
      | _ \<Rightarrow> Inl ValidationError)"

section \<open>Parsing a resume page (WorkUaParser.parse\_resume)\<close>

text \<open>
  \<^verbatim>\<open>BeautifulSoup(html, "html.parser")\<close> and its queries are library code. A parsed page is
  represented by the results of the queries \<^verbatim>\<open>parse_resume\<close> makes:
  \<^item> \<open>description_meta\<close>: \<^verbatim>\<open>soup.find("meta", attrs={"name": "Description"})\<close>; \<open>None\<close> when
    there is no such tag, otherwise the tag's \<^verbatim>\<open>content\<close> attribute if it has one;
  \<^item> \<open>work_experience_header\<close>: \<^verbatim>\<open>soup.find("h2", string="Work experience")\<close>; \<open>None\<close> when
    there is no such heading, otherwise the heading's following \<^verbatim>\<open>h2\<close> siblings of a class
    containing \<^verbatim>\<open>h4\<close> (\<^verbatim>\<open>find_next_siblings\<close>), each with its \<^verbatim>\<open>.text\<close> and its next
    \<^verbatim>\<open>p.mb-0\<close> sibling if any; of that paragraph, the text of its \<^verbatim>\<open>span.text-default-7\<close>
    if any and its \<^verbatim>\<open>get_text(separator=" ", strip=True)\<close>;
  \<^item> \<open>all_text\<close>: \<^verbatim>\<open>soup.get_text(separator=" ", strip=True)\<close>.
\<close>

record details_tag =
  duration_tag :: "string option"
  details_text :: string

record position_tag =
  position_text :: string
  details_tag :: "details_tag option"

record soup =
  description_meta :: "string option option"
  work_experience_header :: "position_tag list option"
  all_text :: string

text \<open>
  The text-processing library functions are parameters: \<^verbatim>\<open>str.lower\<close>, nltk's
  \<^verbatim>\<open>word_tokenize\<close>, \<^verbatim>\<open>stopwords.words("english")\<close> and \<^verbatim>\<open>str.isalnum\<close>.
\<close>

record nlp =
  str_lower :: "string \<Rightarrow> string"
  nltk_word_tokenize :: "string \<Rightarrow> string list"
  nltk_stopwords :: "string list"
  str_isalnum :: "string \<Rightarrow> bool"

text \<open>\<^verbatim>\<open>format_experience_detail\<close>: \<^verbatim>\<open>experience.strip().replace("\xa0", " ")\<close>.\<close>

definition format_experience_detail :: "string \<Rightarrow> string" where
  "format_experience_detail raw = replace [CHR 0xA0] '' '' (strip raw)"

text \<open>
  Lines 333-339. The salary is the first whitespace-delimited word after the last
  \<^verbatim>\<open>salary starting at\<close> of the description; \<^verbatim>\<open>salary_part.split()[0]\<close> raises
  \<^verbatim>\<open>IndexError\<close> when no word follows. The value is stored under the key
  \<^verbatim>\<open>"salary expectation"\<close>, with a space.
\<close>

definition extract_salary :: "soup \<Rightarrow> dict \<Rightarrow> py_error + dict" where
  "extract_salary sp resume =
     (case description_meta sp of
        None \<Rightarrow> Inr resume
      | Some content \<Rightarrow>
          (let description_content = (case content of None \<Rightarrow> '''' | Some c \<Rightarrow> c)
           in if contains ''salary starting at'' description_content
              then (let salary_part = last (split ''salary starting at'' description_content)
                    in case split_ws salary_part of
                         [] \<Rightarrow> Inl IndexError
                       | w # _ \<Rightarrow> Inr (dict_set ''salary expectation'' (PStr (strip w)) resume))
              else Inr resume))"

text \<open>
  Lines 347-370, the body of the loop over the position headings: a heading with no
  following \<^verbatim>\<open>p.mb-0\<close> contributes nothing; otherwise one experience dict is appended,
  its duration \<^verbatim>\<open>None\<close> when the paragraph has no duration span.
\<close>

definition extract_experience :: "position_tag \<Rightarrow> pyval option" where
  "extract_experience ptag =
     (let position = strip (position_text ptag)
      in case details_tag ptag of
           None \<Rightarrow> None
         | Some dtag \<Rightarrow>
             (let duration = map_option format_experience_detail (duration_tag dtag);
                  details = format_experience_detail
                    (replace (case duration of None \<Rightarrow> '''' | Some d \<Rightarrow> d) '''' (details_text dtag))
              in Some (PDict [(''position'', PStr position),
                              (''duration'', (case duration of None \<Rightarrow> PNone | Some d \<Rightarrow> PStr d)),
                              (''details'', PStr details)])))"

definition extract_experiences :: "soup \<Rightarrow> pyval list" where
  "extract_experiences sp =
     (case work_experience_header sp of
        None \<Rightarrow> []
      | Some experience_section \<Rightarrow> List.map_filter extract_experience experience_section)"

text \<open>\<^verbatim>\<open>parse_resume\<close>, on the parsed page.\<close>

definition parse_resume :: "nlp \<Rightarrow> soup \<Rightarrow> py_error + dict" where
  "parse_resume lib sp =
     (let resume = [(''salary_expectation'', PStr ''''),
                    (''experience'', PList []),
                    (''filling_percentage'', PInt 0)]
      in case extract_salary sp resume of
           Inl e \<Rightarrow> Inl e
         | Inr resume1 \<Rightarrow>
             (let resume2 = dict_set ''experience'' (PList (extract_experiences sp)) resume1;
                  tokens = nltk_word_tokenize lib (str_lower lib (all_text sp))
              in case filling_percentage_of (str_isalnum lib) (nltk_stopwords lib) tokens of
                   Inl e \<Rightarrow> Inl e
                 | Inr p \<Rightarrow> Inr (dict_set ''filling_percentage'' (PInt p) resume2)))"


section \<open>Search options (src/models/SearchOptions.py)\<close>

record search_options =
  search :: string
  region :: "string option"
  salary_from :: "int option"
  salary_to :: "int option"
  experience_so :: "string list option"

section \<open>Work.ua: outgoing filter (WorkUaParser.\_\_unpack\_search\_options)\<close>

text \<open>
  The lookup tables \<^verbatim>\<open>REGIONS\<close>, \<^verbatim>\<open>SALARY_FROM_OPTIONS\<close>, \<^verbatim>\<open>SALARY_TO_OPTIONS\<close> and
  \<^verbatim>\<open>EXPERIENCE_OPTIONS\<close> are dicts loaded from JSON files; with the matcher's threshold
  and scorer they make up the configuration of an adapter.
\<close>

record work_ua_config =
  wu_threshold :: int
  wu_scorer :: "string \<Rightarrow> string \<Rightarrow> rat"
  wu_REGIONS :: dict
  wu_SALARY_FROM_OPTIONS :: dict
  wu_SALARY_TO_OPTIONS :: dict
  wu_EXPERIENCE_OPTIONS :: dict

text \<open>\<^verbatim>\<open>"+".join(...)\<close> over values that must all be strings.\<close>

fun join_plus :: "pyval list \<Rightarrow> py_error + string" where
  "join_plus [] = Inr ''''"
| "join_plus [PStr s] = Inr s"
| "join_plus (PStr s # rest) =
     (case join_plus rest of Inl e \<Rightarrow> Inl e | Inr t \<Rightarrow> Inr (s @ ''+'' @ t))"
| "join_plus (_ # rest) = Inl TypeError"

text \<open>The four \<^verbatim>\<open>if\<close> blocks of the method, in order.\<close>

definition wu_set_region :: "work_ua_config \<Rightarrow> search_options \<Rightarrow> dict \<Rightarrow> py_error + dict" where
  "wu_set_region cfg params payload =
     (case region params of
        None \<Rightarrow> Inr payload
      | Some r \<Rightarrow>
          if r = [] then Inr payload
          else (case get_most_similar_word (wu_threshold cfg) (wu_scorer cfg) (Some r)
                       (map fst (wu_REGIONS cfg)) of
                  None \<Rightarrow> Inr (dict_set ''region'' PNone payload)
                | Some name \<Rightarrow>
                    if name = [] then Inr (dict_set ''region'' PNone payload)
                    else (case dict_item (wu_REGIONS cfg) name of
                            Inl e \<Rightarrow> Inl e
                          | Inr v \<Rightarrow> Inr (dict_set ''region'' v payload))))"

definition wu_set_salary :: "string \<Rightarrow> dict \<Rightarrow> int option \<Rightarrow> dict \<Rightarrow> py_error + dict" where
  "wu_set_salary key options salary payload =
     (case salary of
        None \<Rightarrow> Inr payload
      | Some n \<Rightarrow>
          if n = 0 then Inr payload
          else (case dict_item options (str_int n) of
                  Inl e \<Rightarrow> Inl e
                | Inr v \<Rightarrow> Inr (dict_set key v payload)))"

definition wu_set_experience :: "work_ua_config \<Rightarrow> search_options \<Rightarrow> dict \<Rightarrow> py_error + dict" where
  "wu_set_experience cfg params payload =
     (case experience_so params of
        None \<Rightarrow> Inr payload
      | Some exps \<Rightarrow>
          if exps = [] then Inr payload
          else (case traverse (dict_item (wu_EXPERIENCE_OPTIONS cfg)) exps of
                  Inl e \<Rightarrow> Inl e
                | Inr vs \<Rightarrow>
                    (case join_plus vs of
                       Inl e \<Rightarrow> Inl e
                     | Inr s \<Rightarrow> Inr (dict_set ''experience'' (PStr s) payload))))"

definition wu_unpack_search_options :: "work_ua_config \<Rightarrow> search_options \<Rightarrow> py_error + dict" where
  "wu_unpack_search_options cfg params =
     (case wu_set_region cfg params [(''search'', PStr (search params))] of
        Inl e \<Rightarrow> Inl e
      | Inr p1 \<Rightarrow>
          (case wu_set_salary ''salaryfrom'' (wu_SALARY_FROM_OPTIONS cfg) (salary_from params) p1 of
             Inl e \<Rightarrow> Inl e
           | Inr p2 \<Rightarrow>
               (case wu_set_salary ''salaryto'' (wu_SALARY_TO_OPTIONS cfg) (salary_to params) p2 of
                  Inl e \<Rightarrow> Inl e
                | Inr p3 \<Rightarrow> wu_set_experience cfg params p3)))"

section \<open>Work.ua: listing pages (WorkUaParser.get\_resume\_pages)\<close>

text \<open>
  The site is the outcome of the HTTP requests and of the page queries:
  \<^item> \<open>listing_page payload\<close>: the listing request for a payload (with its \<^verbatim>\<open>page\<close> key);
    \<open>None\<close> when \<^verbatim>\<open>requests.get\<close> or \<^verbatim>\<open>raise_for_status\<close> raises;
  \<^item> \<open>total_candidates\<close>: \<^verbatim>\<open>get_total_candidates\<close>, the integer in front of the first
    \<^verbatim>\<open>candidate(s)\<close> of the page text; \<open>None\<close> when the pattern does not match;
  \<^item> \<open>resume_hrefs\<close>: \<^verbatim>\<open>get_resume_href_from_html\<close>, the first link of each result card;
  \<^item> \<open>resume_page href\<close>: \<^verbatim>\<open>get_resume_html_from_href\<close>; \<open>None\<close> when the request fails;
  \<^item> \<open>soup_of\<close>: \<^verbatim>\<open>BeautifulSoup(html, "html.parser")\<close> as queried by \<^verbatim>\<open>parse_resume\<close>.
\<close>

record work_ua_site =
  listing_page :: "dict \<Rightarrow> string option"
  total_candidates :: "string \<Rightarrow> int option"
  resume_hrefs :: "string \<Rightarrow> string list"
  resume_page :: "string \<Rightarrow> string option"
  soup_of :: "string \<Rightarrow> soup"

text \<open>\<^verbatim>\<open>range(start, stop, step)\<close> for a positive step.\<close>

definition py_range :: "int \<Rightarrow> int \<Rightarrow> int \<Rightarrow> int list" where
  "py_range start stop step =
     map (\<lambda>i. start + step * int i) [0 ..< nat ((stop - start + step - 1) div step)]"

text \<open>
  One \<^verbatim>\<open>for page in ...\<close> loop: the page is written into the payload, requested, and
  its text appended; a failed request ends the method with the exception. The function
  returns the page numbers requested, in order, with the outcome.
\<close>

fun fetch_pages :: "work_ua_site \<Rightarrow> dict \<Rightarrow> int list \<Rightarrow> int list \<times> (py_error + string list)" where
  "fetch_pages site payload [] = ([], Inr [])"
| "fetch_pages site payload (page # pages) =
     (case listing_page site (dict_set ''page'' (PInt page) payload) of
        None \<Rightarrow> ([page], Inl RequestException)
      | Some html \<Rightarrow>
          (case fetch_pages site payload pages of
             (requested, Inl e) \<Rightarrow> (page # requested, Inl e)
           | (requested, Inr htmls) \<Rightarrow> (page # requested, Inr (html # htmls))))"

text \<open>
  \<^verbatim>\<open>get_resume_pages\<close>: page 1, the candidate count and the page count, then the even
  pages from 2 and the odd pages from 3.
\<close>

definition get_resume_pages :: "work_ua_config \<Rightarrow> work_ua_site \<Rightarrow> search_options \<Rightarrow> int list \<times> (py_error + string list)" where
  "get_resume_pages cfg site params =
     (case wu_unpack_search_options cfg params of
        Inl e \<Rightarrow> ([], Inl e)
      | Inr payload \<Rightarrow>
          (case listing_page site (dict_set ''page'' (PInt 1) payload) of
             None \<Rightarrow> ([1], Inl RequestException)
           | Some html \<Rightarrow>
               (case total_candidates site html of
                  None \<Rightarrow> ([1], Inl CandidateCountNotFound)
                | Some n \<Rightarrow>
                    (case total_pages_of n of
                       Inl e \<Rightarrow> ([1], Inl e)
                     | Inr total_pages \<Rightarrow>
                         (case fetch_pages site payload
                                 (py_range 2 (total_pages + 1) 2 @ py_range 3 (total_pages + 1) 2) of
                            (requested, Inl e) \<Rightarrow> (1 # requested, Inl e)
                          | (requested, Inr htmls) \<Rightarrow> (1 # requested, Inr (html # htmls)))))))"

section \<open>Work.ua: search (WorkUaParser.search\_resumes)\<close>

text \<open>
  Lines 422-429: the detail page of every link is requested; a page that is \<^verbatim>\<open>None\<close> or
  empty is left out of \<^verbatim>\<open>resume_htmls\<close>.
\<close>

definition fetch_resume_htmls :: "work_ua_site \<Rightarrow> string list \<Rightarrow> string list" where
  "fetch_resume_htmls site hrefs =
     List.map_filter
       (\<lambda>href. case resume_page site href of
                  None \<Rightarrow> None
                | Some resume_html \<Rightarrow> if resume_html = [] then None else Some resume_html)
       hrefs"

text \<open>\<^verbatim>\<open>xs[i]\<close> for a non-negative index.\<close>

definition list_item :: "'a list \<Rightarrow> nat \<Rightarrow> py_error + 'a" where
  "list_item xs i = (if i < length xs then Inr (xs ! i) else Inl IndexError)"

text \<open>
  Lines 433-442, the body of the loop \<^verbatim>\<open>for i, resume_html in enumerate(resume_htmls,
  start=1)\<close>: the page is parsed, and the record gets \<^verbatim>\<open>base_url + hrefs[i - 1]\<close> as its
  \<^verbatim>\<open>href\<close>, where \<^verbatim>\<open>i\<close> counts the pages of \<^verbatim>\<open>resume_htmls\<close>. An empty result of
  \<^verbatim>\<open>parse_resume\<close> would be skipped.
\<close>

definition build_resume :: "nlp \<Rightarrow> work_ua_site \<Rightarrow> string \<Rightarrow> string list \<Rightarrow> nat \<times> string \<Rightarrow> py_error + resume option" where
  "build_resume lib site base_url hrefs entry =
     (case entry of
        (i, resume_html) \<Rightarrow>
          (case parse_resume lib (soup_of site resume_html) of
             Inl e \<Rightarrow> Inl e
           | Inr parsed \<Rightarrow>
               if parsed = [] then Inr None
               else (case list_item hrefs (i - 1) of
                       Inl e \<Rightarrow> Inl e
                     | Inr link \<Rightarrow>
                         (case Resume_init ((''href'', PStr (base_url @ link)) # parsed) of
                            Inl e \<Rightarrow> Inl e
                          | Inr r \<Rightarrow> Inr (Some r)))))"

definition wu_search_resumes :: "nlp \<Rightarrow> work_ua_config \<Rightarrow> work_ua_site \<Rightarrow> string \<Rightarrow> search_options \<Rightarrow> py_error + resume list" where
  "wu_search_resumes lib cfg site base_url params =
     (case snd (get_resume_pages cfg site params) of
        Inl e \<Rightarrow> Inl e
      | Inr page_htmls \<Rightarrow>
          (let hrefs = concat (map (resume_hrefs site) page_htmls);
               resume_htmls = fetch_resume_htmls site hrefs
           in case traverse (build_resume lib site base_url hrefs)
                     (zip [1 ..< Suc (length resume_htmls)] resume_htmls) of
                Inl e \<Rightarrow> Inl e
              | Inr rs \<Rightarrow> Inr (List.map_filter id rs)))"


section \<open>Robota.ua: unpacking a response record (RobotaUaParser.unpack\_resume\_from\_response)\<close>






section \<open>Robota.ua: outgoing filter (RobotaUaParser.\_\_unpack\_search\_options)\<close>





section \<open>The caller (TelegramResumeBot.search\_resumes)\<close>

text \<open>
  The handler replies with a request for keywords when the user's options have no
  \<^verbatim>\<open>search\<close> key; otherwise it validates the options, calls the Work.ua adapter and then the
  Robota.ua adapter, and replies with the number of results and the five best. There is
  no \<^verbatim>\<open>try\<close> in the handler: an exception of either adapter ends it. The validation
  (\<^verbatim>\<open>models.SearchOptions(**search_options)\<close>) and the two adapters' \<^verbatim>\<open>search_resumes\<close>
  are parameters.
\<close>

datatype reply =
    ProvideKeywords
  | Found nat "resume list"

definition bot_search_resumes ::
  "(dict \<Rightarrow> py_error + search_options) \<Rightarrow> (search_options \<Rightarrow> py_error + resume list) \<Rightarrow>
   (search_options \<Rightarrow> py_error + resume list) \<Rightarrow> dict \<Rightarrow> py_error + reply" where
  "bot_search_resumes validate work_ua robota_ua search_options =
     (if dict_get search_options ''search'' = None then Inr ProvideKeywords
      else (case validate search_options of
              Inl e \<Rightarrow> Inl e
            | Inr params \<Rightarrow>
                (case work_ua params of
                   Inl e \<Rightarrow> Inl e
                 | Inr work_ua_results \<Rightarrow>
                     (case robota_ua params of
                        Inl e \<Rightarrow> Inl e
                      | Inr robota_ua_results \<Rightarrow>
                          Inr (Found (length (combined_results work_ua_results robota_ua_results))
                                 (top_resumes work_ua_results robota_ua_results))))))"


section \<open>Example inputs\<close>

text \<open>
  Concrete inputs on which the definitions are evaluated below: a tokenizer that splits at
  whitespace, a listing page with two result cards of which only the second detail page
  can be fetched, a detail page that carries a salary, one position with a duration
  and one position without a details paragraph, a page with none of these, and a
  response record of the API.
\<close>

abbreviation example_nlp :: nlp where
  "example_nlp \<equiv>
     \<lparr>str_lower = (\<lambda>s. s), nltk_word_tokenize = split_ws, nltk_stopwords = [''the'', ''in''],
      str_isalnum = (\<lambda>w. w \<noteq> '','')\<rparr>"

abbreviation example_soup :: soup where
  "example_soup \<equiv>
     \<lparr>description_meta = Some (Some ''Resume of a welder, salary starting at 25000 UAH''),
      work_experience_header =
        Some [\<lparr>position_text = '' Welder '',
                details_tag = Some \<lparr>duration_tag = Some ''2 years'', details_text = ''Plant 2 years''\<rparr>\<rparr>,
              \<lparr>position_text = ''Driver'', details_tag = None\<rparr>],
      all_text = ''welder in the plant , 2 years''\<rparr>"

abbreviation example_bare_soup :: soup where
  "example_bare_soup \<equiv> \<lparr>description_meta = None, work_experience_header = None, all_text = ''''\<rparr>"

abbreviation example_config :: work_ua_config where
  "example_config \<equiv>

     \<lparr>wu_threshold = 70, wu_scorer = (\<lambda>w v. if w = ''Kyyiv'' \<and> v = ''Kyiv'' then 89 else 20),
      wu_REGIONS = [(''Kyiv'', PInt 1), (''Lviv'', PInt 2)],
      wu_SALARY_FROM_OPTIONS = [], wu_SALARY_TO_OPTIONS = [], wu_EXPERIENCE_OPTIONS = []\<rparr>"

abbreviation example_params :: search_options where
  "example_params \<equiv>
     \<lparr>search = ''welder'', region = Some '''', salary_from = Some 0, salary_to = Some 0,
      experience_so = Some []\<rparr>"

abbreviation example_site :: work_ua_site where
  "example_site \<equiv>
     \<lparr>listing_page = (\<lambda>payload. Some ''2 candidates''),
      total_candidates = (\<lambda>html. Some 2),
      resume_hrefs = (\<lambda>html. [''/resumes/1/'', ''/resumes/2/'']),
      resume_page = (\<lambda>href. if href = ''/resumes/2/'' then Some ''resume 2'' else None),
      soup_of = (\<lambda>html. if html = ''resume 2'' then example_soup else example_bare_soup)\<rparr>"





section \<open>Properties of the ranking\<close>

lemma mset_insort_lt: "mset (insort_lt x ys) = add_mset x (mset ys)"
  by (induction ys) auto

lemma set_insort_lt: "set (insort_lt x ys) = insert x (set ys)"
  by (induction ys) auto

lemma length_insort_lt: "length (insort_lt x ys) = Suc (length ys)"
  by (induction ys) auto

lemma sorted_insort_lt:
  "sorted_wrt (\<lambda>a b. filling_percentage a \<le> filling_percentage b) ys \<Longrightarrow> sorted_wrt (\<lambda>a b. filling_percentage a \<le> filling_percentage b) (insort_lt x ys)"
  by (induction ys) (auto simp: set_insort_lt resume_lt_def)

lemma filter_insort_lt:
  "sorted_wrt (\<lambda>a b. filling_percentage a \<le> filling_percentage b) ys \<Longrightarrow>
   filter (\<lambda>r. filling_percentage r = k) (insort_lt x ys) = filter (\<lambda>r. filling_percentage r = k) ys @ (if filling_percentage x = k then [x] else [])"
proof (induction ys)
  case Nil
  then show ?case by simp
next
  case (Cons y ys)
  show ?case
  proof (cases "resume_lt x y")
    case True
    then have "\<forall>r \<in> set (y # ys). filling_percentage x < filling_percentage r"
      using Cons.prems by (auto simp: resume_lt_def)
    then have "filling_percentage x = k \<Longrightarrow> filter (\<lambda>r. filling_percentage r = k) (y # ys) = []"
      by (auto simp: filter_empty_conv)
    with True show ?thesis by auto
  next
    case False
    with Cons show ?thesis by auto
  qed
qed

lemma foldl_insort_lt:
  "sorted_wrt (\<lambda>a b. filling_percentage a \<le> filling_percentage b) acc \<Longrightarrow>
   sorted_wrt (\<lambda>a b. filling_percentage a \<le> filling_percentage b) (foldl (\<lambda>acc x. insort_lt x acc) acc xs) \<and>
   mset (foldl (\<lambda>acc x. insort_lt x acc) acc xs) = mset acc + mset xs \<and>
   filter (\<lambda>r. filling_percentage r = k) (foldl (\<lambda>acc x. insort_lt x acc) acc xs)
     = filter (\<lambda>r. filling_percentage r = k) acc @ filter (\<lambda>r. filling_percentage r = k) xs"
proof (induction xs arbitrary: acc)
  case Nil
  then show ?case by simp
next
  case (Cons x xs)
  from Cons.IH [OF sorted_insort_lt [OF Cons.prems, of x]] Cons.prems
  show ?case by (simp add: mset_insort_lt filter_insort_lt)
qed

lemma sort_lt_props:
  "sorted_wrt (\<lambda>a b. filling_percentage a \<le> filling_percentage b) (sort_lt xs)"
  "mset (sort_lt xs) = mset xs"
  "filter (\<lambda>r. filling_percentage r = k) (sort_lt xs) = filter (\<lambda>r. filling_percentage r = k) xs"
  using foldl_insort_lt [of "[]" xs k] by (simp_all add: sort_lt_def)

lemma sort_reverse_sorted: "sorted_wrt (\<lambda>a b. filling_percentage b \<le> filling_percentage a) (sort_reverse xs)"
  using sort_lt_props(1) [of "rev xs"] by (simp add: sort_reverse_def sorted_wrt_rev)

lemma sort_reverse_mset: "mset (sort_reverse xs) = mset xs"
  by (simp add: sort_reverse_def sort_lt_props(2))

lemma sort_reverse_stable:
  "filter (\<lambda>r. filling_percentage r = k) (sort_reverse xs) = filter (\<lambda>r. filling_percentage r = k) xs"
  by (simp add: sort_reverse_def sort_lt_props(3) flip: rev_filter)

lemma mset_take_subseteq: "mset (take n xs) \<subseteq># mset xs"
  by (metis append_take_drop_id mset_append mset_subset_eq_add_left)

text \<open>
  Claim C1. The ranking concatenates the two sources' lists in order, sorts the
  concatenation descending by \<open>filling_percentage\<close> with a stable sort (records of equal
  \<open>filling_percentage\<close> keep the order they have in the concatenation), and returns the first
  five records: exactly \<open>min 5 total\<close> of them, each one a record of the input, none more
  often than the input has it (so no duplicates when the input has none).
\<close>

theorem ranking_top_five:
  fixes work robota :: "resume list"
  defines "c \<equiv> work @ robota"
  defines "s \<equiv> combined_results work robota"
  defines "best \<equiv> top_resumes work robota"
  shows "best = take 5 s
    \<and> mset s = mset c
    \<and> sorted_wrt (\<lambda>a b. filling_percentage b \<le> filling_percentage a) s
    \<and> (\<forall>k. filter (\<lambda>r. filling_percentage r = k) s = filter (\<lambda>r. filling_percentage r = k) c)
    \<and> length best = min 5 (length work + length robota)
    \<and> set best \<subseteq> set work \<union> set robota
    \<and> mset best \<subseteq># mset c
    \<and> (distinct c \<longrightarrow> distinct best)"
proof -
  have m: "mset s = mset c"
    by (simp add: s_def c_def combined_results_def sort_reverse_mset)
  have len: "length s = length c" using m by (rule mset_eq_length)
  have st: "set s = set c" using m by (rule mset_eq_setD)
  have d: "distinct c \<longleftrightarrow> distinct s" using m by (metis mset_eq_imp_distinct_iff)
  have t: "best = take 5 s" by (simp add: best_def s_def top_resumes_def)
  have "set best \<subseteq> set s" unfolding t by (rule set_take_subset)
  moreover have "mset best \<subseteq># mset s" unfolding t by (rule mset_take_subseteq)
  moreover have "length best = min 5 (length c)" unfolding t using len by simp
  ultimately show ?thesis
    using m t d st
    by (simp add: s_def c_def combined_results_def sort_reverse_sorted sort_reverse_stable)
qed

theorem ranking_top_five_witness:
  "distinct
     ([\<lparr>href = ''w1'', salary_expectation = Some '''', experience = Some [], filling_percentage = 40\<rparr>,
       \<lparr>href = ''w2'', salary_expectation = Some '''', experience = Some [], filling_percentage = 90\<rparr>]
      @ [\<lparr>href = ''r1'', salary_expectation = Some '''', experience = Some [], filling_percentage = 90\<rparr>,
         \<lparr>href = ''r2'', salary_expectation = Some '''', experience = Some [], filling_percentage = 10\<rparr>])
   \<and> distinct
     (top_resumes
       [\<lparr>href = ''w1'', salary_expectation = Some '''', experience = Some [], filling_percentage = 40\<rparr>,
        \<lparr>href = ''w2'', salary_expectation = Some '''', experience = Some [], filling_percentage = 90\<rparr>]
       [\<lparr>href = ''r1'', salary_expectation = Some '''', experience = Some [], filling_percentage = 90\<rparr>,
        \<lparr>href = ''r2'', salary_expectation = Some '''', experience = Some [], filling_percentage = 10\<rparr>])
   \<and> map href
     (top_resumes
       [\<lparr>href = ''w1'', salary_expectation = Some '''', experience = Some [], filling_percentage = 40\<rparr>,
        \<lparr>href = ''w2'', salary_expectation = Some '''', experience = Some [], filling_percentage = 90\<rparr>]
       [\<lparr>href = ''r1'', salary_expectation = Some '''', experience = Some [], filling_percentage = 90\<rparr>,
        \<lparr>href = ''r2'', salary_expectation = Some '''', experience = Some [], filling_percentage = 10\<rparr>])
     = [''w2'', ''r1'', ''w1'', ''r2'']"
  using ranking_top_five
    [of "[\<lparr>href = ''w1'', salary_expectation = Some '''', experience = Some [], filling_percentage = 40\<rparr>,
          \<lparr>href = ''w2'', salary_expectation = Some '''', experience = Some [], filling_percentage = 90\<rparr>]"
        "[\<lparr>href = ''r1'', salary_expectation = Some '''', experience = Some [], filling_percentage = 90\<rparr>,
          \<lparr>href = ''r2'', salary_expectation = Some '''', experience = Some [], filling_percentage = 10\<rparr>]"]
  by (simp add: top_resumes_def combined_results_def sort_reverse_def sort_lt_def resume_lt_def)


section \<open>Properties of the double-precision operations\<close>

lemma rhe_cases:
  obtains f where "of_int f \<le> z" "z < of_int f + 1" "f = \<lfloor>z\<rfloor>"
    "round_half_even z = (if z - of_int f < 1 / 2 then f else if 1 / 2 < z - of_int f then f + 1
       else if even f then f else f + 1)"
proof -
  have "of_int \<lfloor>z\<rfloor> \<le> z" "z < of_int \<lfloor>z\<rfloor> + 1" by linarith+
  then show ?thesis using that [of "\<lfloor>z\<rfloor>"] by (simp add: round_half_even_def Let_def)
qed

lemma rhe_bounds:
  "of_int (round_half_even z) \<le> z + 1 / 2" "z - 1 / 2 \<le> of_int (round_half_even z)"
proof -
  obtain f where f: "of_int f \<le> z" "z < of_int f + 1"
    "round_half_even z = (if z - of_int f < 1 / 2 then f else if 1 / 2 < z - of_int f then f + 1
       else if even f then f else f + 1)"
    by (rule rhe_cases)
  show "of_int (round_half_even z) \<le> z + 1 / 2"
    unfolding f(3) using f(1,2) by (auto split: if_splits)
  show "z - 1 / 2 \<le> of_int (round_half_even z)"
    unfolding f(3) using f(1,2) by (auto split: if_splits)
qed

lemma rhe_of_int: "round_half_even (of_int n) = n"
  by (simp add: round_half_even_def)

lemma rhe_mono: "x \<le> y \<Longrightarrow> round_half_even x \<le> round_half_even y"
proof -
  assume xy: "x \<le> y"
  obtain f where f: "of_int f \<le> x" "x < of_int f + 1" "f = \<lfloor>x\<rfloor>"
    "round_half_even x = (if x - of_int f < 1 / 2 then f else if 1 / 2 < x - of_int f then f + 1
       else if even f then f else f + 1)"
    by (rule rhe_cases)
  obtain g where g: "of_int g \<le> y" "y < of_int g + 1" "g = \<lfloor>y\<rfloor>"
    "round_half_even y = (if y - of_int g < 1 / 2 then g else if 1 / 2 < y - of_int g then g + 1
       else if even g then g else g + 1)"
    by (rule rhe_cases)
  have le: "f \<le> g" unfolding f(3) g(3) using xy by (rule floor_mono)
  show ?thesis
  proof (cases "f = g")
    case True
    with xy show ?thesis unfolding f(4) g(4) by (auto split: if_splits)
  next
    case False
    with le have "f + 1 \<le> g" by simp
    moreover have "round_half_even x \<le> f + 1" unfolding f(4) by auto
    moreover have "g \<le> round_half_even y" unfolding g(4) by auto
    ultimately show ?thesis by linarith
  qed
qed

lemma rhe_le: "z \<le> of_int n \<Longrightarrow> round_half_even z \<le> n"
  using rhe_mono [of z "of_int n"] by (simp add: rhe_of_int)

lemma rhe_ge: "of_int n \<le> z \<Longrightarrow> n \<le> round_half_even z"
  using rhe_mono [of "of_int n" z] by (simp add: rhe_of_int)

lemma rhe_near: "\<bar>z - of_int n\<bar> < 1 / 2 \<Longrightarrow> round_half_even z = n"
proof -
  assume a: "\<bar>z - of_int n\<bar> < 1 / 2"
  have b: "of_int (round_half_even z) \<le> z + 1 / 2" "z - 1 / 2 \<le> of_int (round_half_even z)"
    by (rule rhe_bounds)+
  from a b have "\<bar>(of_int (round_half_even z) :: rat) - of_int n\<bar> < 1" by linarith
  then have "\<bar>(of_int (round_half_even z - n) :: rat)\<bar> < 1" by simp
  then have "\<bar>round_half_even z - n\<bar> < 1"
    by (metis of_int_abs of_int_less_1_iff)
  then show ?thesis by linarith
qed

lemma float_exponent_bounds:
  assumes "0 < q"
  shows "2 powi (float_exponent q) \<le> q" "q < 2 powi (float_exponent q + 1)"
proof -
  obtain a b where ab: "quotient_of q = (a, b)" by (cases "quotient_of q")
  then have b: "0 < b" and q: "q = of_int a / of_int b"
    by (auto simp: quotient_of_denom_pos quotient_of_div)
  with assms have a: "0 < a" by (simp add: zero_less_divide_iff)
  define d where "d = bitlen a - bitlen b"
  have e: "float_exponent q = (if 2 powi d \<le> q then d else d - 1)"
    by (simp add: float_exponent_def ab d_def Let_def)
  have la: "1 \<le> bitlen a" "1 \<le> bitlen b"
    using a b bitlen_eq_zero_iff [of a] bitlen_eq_zero_iff [of b] bitlen_nonneg [of a] bitlen_nonneg [of b]
    by linarith+
  have ba: "(2::rat) powi (bitlen a - 1) \<le> of_int a" "of_int a < (2::rat) powi (bitlen a)"
  proof -
    from bitlen_bounds [OF a] have "2 ^ nat (bitlen a - 1) \<le> a" "a < 2 ^ nat (bitlen a)" by auto
    then have "(of_int (2 ^ nat (bitlen a - 1)) :: rat) \<le> of_int a" "(of_int a :: rat) < of_int (2 ^ nat (bitlen a))"
      by (simp_all only: of_int_le_iff of_int_less_iff)
    then show "(2::rat) powi (bitlen a - 1) \<le> of_int a" "of_int a < (2::rat) powi (bitlen a)"
      using la by (simp_all add: power_int_def)
  qed
  have bb: "(2::rat) powi (bitlen b - 1) \<le> of_int b" "of_int b < (2::rat) powi (bitlen b)"
  proof -
    from bitlen_bounds [OF b] have "2 ^ nat (bitlen b - 1) \<le> b" "b < 2 ^ nat (bitlen b)" by auto
    then have "(of_int (2 ^ nat (bitlen b - 1)) :: rat) \<le> of_int b" "(of_int b :: rat) < of_int (2 ^ nat (bitlen b))"
      by (simp_all only: of_int_le_iff of_int_less_iff)
    then show "(2::rat) powi (bitlen b - 1) \<le> of_int b" "of_int b < (2::rat) powi (bitlen b)"
      using la by (simp_all add: power_int_def)
  qed
  have bpos: "(0::rat) < of_int b" using b by simp
  have apos: "(0::rat) < of_int a" using a by simp
  have up: "q < 2 powi (d + 1)"
  proof -
    have "of_int a < (2::rat) powi (d + 1) * 2 powi (bitlen b - 1)"
      using ba(2) by (simp add: d_def flip: power_int_add)
    also have "\<dots> \<le> 2 powi (d + 1) * of_int b"
      using bb(1) by (simp add: mult_left_mono)
    finally show ?thesis using bpos by (simp add: q pos_divide_less_eq)
  qed
  have lo: "2 powi (d - 1) \<le> q"
  proof -
    have "(2::rat) powi (d - 1) * of_int b \<le> 2 powi (d - 1) * 2 powi (bitlen b)"
      using bb(2) by (simp add: mult_left_mono)
    also have "\<dots> = 2 powi (bitlen a - 1)" by (simp add: d_def flip: power_int_add)
    also have "\<dots> \<le> of_int a" by (rule ba(1))
    finally show ?thesis using bpos by (simp add: q pos_le_divide_eq)
  qed
  show "2 powi (float_exponent q) \<le> q" using lo by (simp add: e)
  show "q < 2 powi (float_exponent q + 1)" using up by (auto simp: e not_le)
qed



lemma round_double_alt:
  "q \<noteq> 0 \<Longrightarrow> round_double q = of_int (round_half_even (q / 2 powi ulp_exponent q)) * 2 powi ulp_exponent q"
  by (simp add: round_double_def)

lemma pow2_pos: "(0::rat) < 2 powi u"
  by (simp add: zero_less_power_int)

lemma pow2_less_iff: "(2::rat) powi a < 2 powi b \<longleftrightarrow> a < b"
proof
  assume l: "(2::rat) powi a < 2 powi b"
  show "a < b"
  proof (rule ccontr)
    assume "\<not> a < b"
    then have "b \<le> a" by simp
    then have "(2::rat) powi b \<le> 2 powi a" by (rule power_int_increasing) simp
    with l show False by simp
  qed
next
  assume "a < b"
  then show "(2::rat) powi a < 2 powi b" by (rule power_int_strict_increasing) simp
qed

lemma pow2_nonpos_inverse: "u \<le> 0 \<Longrightarrow> 1 / (2::rat) powi u = of_int (2 ^ nat (- u))"
  by (simp add: power_int_def field_simps)

lemma round_double_nonneg: "0 \<le> q \<Longrightarrow> 0 \<le> round_double q"
proof (cases "q = 0")
  case True
  then show ?thesis by (simp add: round_double_def)
next
  case False
  assume "0 \<le> q"
  then have "(of_int 0 :: rat) \<le> q / 2 powi ulp_exponent q"
    using pow2_pos [of "ulp_exponent q"] by simp
  then have "0 \<le> round_half_even (q / 2 powi ulp_exponent q)" by (rule rhe_ge)
  then show ?thesis
    using pow2_pos [of "ulp_exponent q"] False by (simp add: round_double_alt)
qed

lemma ulp_exponent_nonpos:
  assumes "0 < q" "q < 2 ^ 53"
  shows "ulp_exponent q \<le> 0"
proof -
  have "2 powi (float_exponent q) \<le> q" using assms(1) by (rule float_exponent_bounds)
  also have "q < 2 powi 53" using assms(2) by simp
  finally have "float_exponent q < 53" by (simp only: pow2_less_iff)
  then show ?thesis using assms(1) by (simp add: ulp_exponent_def)
qed

lemma round_double_le_int:
  assumes "0 < q" "q \<le> of_int c" "c < 2 ^ 53"
  shows "round_double q \<le> of_int c"
proof -
  let ?u = "ulp_exponent q"
  have "(of_int c :: rat) < of_int (2 ^ 53)" using assms(3) by (simp only: of_int_less_iff)
  then have "q < 2 ^ 53" using assms(2) by simp
  then have u: "?u \<le> 0" using assms(1) by (intro ulp_exponent_nonpos)
  have inv: "1 / (2::rat) powi ?u = of_int (2 ^ nat (- ?u))" using u by (rule pow2_nonpos_inverse)
  have "q / 2 powi ?u \<le> of_int c / 2 powi ?u"
    using assms(2) pow2_pos [of ?u] by (simp add: divide_right_mono)
  also have "\<dots> = of_int c * (1 / 2 powi ?u)" by simp
  also have "\<dots> = of_int (c * 2 ^ nat (- ?u))" unfolding inv by simp
  finally have "round_half_even (q / 2 powi ?u) \<le> c * 2 ^ nat (- ?u)" by (rule rhe_le)
  then have "(of_int (round_half_even (q / 2 powi ?u)) :: rat) \<le> of_int (c * 2 ^ nat (- ?u))"
    by (simp only: of_int_le_iff)
  then have "of_int (round_half_even (q / 2 powi ?u)) * 2 powi ?u \<le> (of_int (c * 2 ^ nat (- ?u)) :: rat) * 2 powi ?u"
    using pow2_pos [of ?u] by (simp add: mult_right_mono)
  also have "(of_int (c * 2 ^ nat (- ?u)) :: rat) * 2 powi ?u = of_int c * ((1 / 2 powi ?u) * 2 powi ?u)"
    unfolding inv by simp
  also have "\<dots> = of_int c" using pow2_pos [of ?u] by simp
  finally show ?thesis using assms(1) by (simp add: round_double_alt)
qed


lemma round_double_error:
  assumes "q \<noteq> 0"
  shows "\<bar>round_double q - q\<bar> \<le> 2 powi (ulp_exponent q - 1)"
proof -
  let ?u = "ulp_exponent q"
  let ?z = "q / 2 powi ?u"
  have p: "(0::rat) < 2 powi ?u" by (rule pow2_pos)
  have "\<bar>of_int (round_half_even ?z) - ?z\<bar> \<le> 1 / 2"
    using rhe_bounds [of ?z] by linarith
  then have "\<bar>of_int (round_half_even ?z) - ?z\<bar> * 2 powi ?u \<le> 1 / 2 * 2 powi ?u"
    using p by (simp add: mult_right_mono)
  moreover have "\<bar>of_int (round_half_even ?z) - ?z\<bar> * 2 powi ?u = \<bar>round_double q - q\<bar>"
  proof -
    have "\<bar>of_int (round_half_even ?z) - ?z\<bar> * 2 powi ?u = \<bar>(of_int (round_half_even ?z) - ?z) * 2 powi ?u\<bar>"
      using p by (simp add: abs_mult)
    also have "(of_int (round_half_even ?z) - ?z) * 2 powi ?u = round_double q - q"
      using p assms by (simp add: round_double_alt left_diff_distrib)
    finally show ?thesis .
  qed
  moreover have "1 / 2 * (2::rat) powi ?u = 2 powi (?u - 1)"
    by (simp add: power_int_diff)
  ultimately show ?thesis by simp
qed


lemma ulp_exponent_le:
  assumes "0 < q" "q < 2 powi k" "- 1021 \<le> k"
  shows "ulp_exponent q \<le> k - 53"
proof -
  have "2 powi (float_exponent q) \<le> q" using assms(1) by (rule float_exponent_bounds)
  also note assms(2)
  finally have "float_exponent q < k" by (simp only: pow2_less_iff)
  then show ?thesis using assms(1,3) by (simp add: ulp_exponent_def)
qed

lemma round_double_error_le:
  assumes "0 \<le> q" "q < 2 powi k" "- 1021 \<le> k"
  shows "\<bar>round_double q - q\<bar> \<le> 2 powi (k - 54)"
proof (cases "q = 0")
  case True
  then show ?thesis by (simp add: round_double_def)
next
  case False
  with assms(1) have q: "0 < q" by simp
  have "\<bar>round_double q - q\<bar> \<le> 2 powi (ulp_exponent q - 1)"
    using False by (rule round_double_error)
  also have "\<dots> \<le> 2 powi (k - 54)"
    using ulp_exponent_le [OF q assms(2,3)] by (intro power_int_increasing) simp_all
  finally show ?thesis .
qed

lemma quotient_double_range:
  assumes "0 \<le> m" "m \<le> t" "0 < t"
  shows "0 \<le> round_double (of_int m / of_int t)" "round_double (of_int m / of_int t) \<le> 1"
proof -
  let ?q = "of_int m / of_int t :: rat"
  have q0: "0 \<le> ?q" using assms by simp
  have q1: "?q \<le> 1" using assms by simp
  show "0 \<le> round_double ?q" using q0 by (rule round_double_nonneg)
  show "round_double ?q \<le> 1"
  proof (cases "?q = 0")
    case True
    then show ?thesis by (simp add: round_double_def)
  next
    case False
    with q0 have "0 < ?q" by (simp only: order.strict_iff_order) simp
    then have "round_double ?q \<le> of_int 1"
      using q1 by (intro round_double_le_int) simp_all
    then show ?thesis by simp
  qed
qed

lemma true_div_counts:
  assumes "0 \<le> m" "m \<le> t" "0 < t"
  shows "true_div m t = Inr (round_double (of_int m / of_int t))"
proof -
  let ?x = "round_double (of_int m / of_int t)"
  have "\<bar>?x\<bar> \<le> 1" using quotient_double_range [OF assms] by simp
  also have "(1::rat) < 2 ^ 1024" by simp
  finally show ?thesis using assms(3) by (simp add: true_div_def Let_def)
qed

lemma product_double_range:
  assumes "0 \<le> x" "x \<le> 1"
  shows "0 \<le> float_mul x 100" "float_mul x 100 \<le> 100"
proof -
  have p0: "0 \<le> x * 100" using assms by simp
  then show "0 \<le> float_mul x 100" unfolding float_mul_def by (rule round_double_nonneg)
  show "float_mul x 100 \<le> 100"
  proof (cases "x * 100 = 0")
    case True
    then show ?thesis by (simp add: float_mul_def round_double_def)
  next
    case False
    with p0 have "0 < x * 100" by (simp only: order.strict_iff_order) simp
    moreover have "x * 100 \<le> of_int 100" using assms by simp
    ultimately have "round_double (x * 100) \<le> of_int 100"
      by (rule round_double_le_int) simp
    then show ?thesis by (simp add: float_mul_def)
  qed
qed

lemma py_round_range:
  assumes "0 \<le> y" "y \<le> 100"
  shows "0 \<le> py_round y" "py_round y \<le> 100"
proof -
  have "(of_int 0 :: rat) \<le> y" using assms by simp
  then show "0 \<le> py_round y" unfolding py_round_def by (rule rhe_ge)
  have "y \<le> of_int 100" using assms by simp
  then show "py_round y \<le> 100" unfolding py_round_def by (rule rhe_le)
qed

lemma two_step_error:
  fixes y x q :: rat
  assumes "\<bar>y - x * 100\<bar> \<le> a" "\<bar>x - q\<bar> \<le> b"
  shows "\<bar>y - 100 * q\<bar> \<le> a + 100 * b"
  using assms by linarith

text \<open>The double-precision product stays within \<open>164 / 2\<^sup>5\<^sup>3\<close> of the exact percentage.\<close>

lemma product_double_error:
  assumes "0 \<le> m" "m \<le> t" "0 < t"
  shows "\<bar>float_mul (round_double (of_int m / of_int t)) 100 - 100 * of_int m / of_int t\<bar>
           \<le> 164 / 2 ^ 53"
proof -
  let ?q = "of_int m / of_int t :: rat"
  let ?x = "round_double ?q"
  let ?y = "float_mul ?x 100"
  have q0: "0 \<le> ?q" using assms by simp
  have "?q \<le> 1" using assms by simp
  then have q1: "?q < 2 powi 1" by simp
  have e1: "\<bar>?x - ?q\<bar> \<le> 2 powi (1 - 54)"
    using q0 q1 by (rule round_double_error_le) simp
  have x: "0 \<le> ?x" "?x \<le> 1" by (rule quotient_double_range [OF assms])+
  have p0: "0 \<le> ?x * 100" using x by simp
  have p1: "?x * 100 < 2 powi 7" using x by simp
  have e2: "\<bar>?y - ?x * 100\<bar> \<le> 2 powi (7 - 54)"
    unfolding float_mul_def using p0 p1 by (rule round_double_error_le) simp
  have "\<bar>?y - 100 * ?q\<bar> \<le> 2 powi (7 - 54) + 100 * 2 powi (1 - 54)"
    using e2 e1 by (rule two_step_error)
  also have "\<dots> = 164 / 2 ^ 53" by simp
  finally show ?thesis by simp
qed

lemma percentage_nearest:
  assumes "0 \<le> m" "m \<le> t" "0 < t" "t \<le> 2 ^ 44"
  shows "\<bar>of_int (py_round (float_mul (round_double (of_int m / of_int t)) 100)) - 100 * of_int m / of_int t\<bar>
           \<le> (1 / 2 :: rat)"
proof -
  let ?v = "100 * of_int m / of_int t :: rat"
  let ?y = "float_mul (round_double (of_int m / of_int t)) 100"
  define n where "n = py_round ?y"
  have tpos: "(0::rat) < of_int t" using assms(3) by simp
  have "(of_int t :: rat) \<le> of_int (2 ^ 44)" using assms(4) by (simp only: of_int_le_iff)
  then have tle: "(of_int t :: rat) \<le> 2 ^ 44" by simp
  have ny: "\<bar>of_int n - ?y\<bar> \<le> 1 / 2"
    unfolding n_def py_round_def using rhe_bounds [of ?y] by linarith
  have yv: "\<bar>?y - ?v\<bar> \<le> 164 / 2 ^ 53" by (rule product_double_error [OF assms(1-3)])
  have nv: "\<bar>of_int n - ?v\<bar> \<le> 1 / 2 + 164 / 2 ^ 53" using ny yv by linarith
  have "\<bar>of_int n - ?v\<bar> * (2 * of_int t) \<le> (1 / 2 + 164 / 2 ^ 53) * (2 * of_int t)"
    using nv tpos by (intro mult_right_mono) simp_all
  also have "\<dots> = of_int t + (328 / 2 ^ 53) * of_int t" by (simp add: algebra_simps)
  also have "\<dots> \<le> of_int t + (328 / 2 ^ 53) * 2 ^ 44"
    using tle by (intro add_left_mono mult_left_mono) simp_all
  also have "\<dots> < of_int t + 1" by simp
  finally have lt: "\<bar>of_int n - ?v\<bar> * (2 * of_int t) < of_int (t + 1)" by simp
  have "\<bar>of_int n - ?v\<bar> * (2 * of_int t) = \<bar>(of_int n - ?v) * (2 * of_int t)\<bar>"
    using tpos by (simp add: abs_mult)
  also have "(of_int n - ?v) * (2 * of_int t) = (of_int (2 * n * t - 200 * m) :: rat)"
    using tpos by (simp add: field_simps)
  finally have "\<bar>(of_int (2 * n * t - 200 * m) :: rat)\<bar> < of_int (t + 1)" using lt by simp
  then have "(of_int \<bar>2 * n * t - 200 * m\<bar> :: rat) < of_int (t + 1)" by (simp only: of_int_abs)
  then have "\<bar>2 * n * t - 200 * m\<bar> < t + 1" by (simp only: of_int_less_iff)
  then have "\<bar>2 * n * t - 200 * m\<bar> \<le> t" by simp
  then have "(of_int \<bar>2 * n * t - 200 * m\<bar> :: rat) \<le> of_int t" by (simp only: of_int_le_iff)
  then have "\<bar>(of_int (2 * n * t - 200 * m) :: rat)\<bar> \<le> of_int t" by (simp only: of_int_abs)
  also have "(of_int (2 * n * t - 200 * m) :: rat) = (of_int n - ?v) * (2 * of_int t)"
    using tpos by (simp add: field_simps)
  finally have "\<bar>of_int n - ?v\<bar> * (2 * of_int t) \<le> of_int t"
    using tpos by (simp add: abs_mult)
  then have "\<bar>of_int n - ?v\<bar> \<le> of_int t / (2 * of_int t)"
    using tpos by (simp add: pos_le_divide_eq)
  also have "of_int t / (2 * of_int t) = (1 / 2 :: rat)" using tpos by simp
  finally show ?thesis unfolding n_def .
qed



section \<open>Properties of the completeness score\<close>

lemma length_meaningful_words_le:
  "length (meaningful_words isalnum stop_words tokens) \<le> length tokens"
  by (simp add: meaningful_words_def)

lemma filling_percentage_of_nonempty:
  assumes "tokens \<noteq> []"
  shows "filling_percentage_of isalnum stop_words tokens =
     Inr (py_round (float_mul (round_double
        (of_int (int (length (meaningful_words isalnum stop_words tokens))) / of_int (int (length tokens)))) 100))"
proof -
  let ?m = "int (length (meaningful_words isalnum stop_words tokens))"
  let ?t = "int (length tokens)"
  have t: "0 < ?t" using assms by simp
  have m: "0 \<le> ?m" "?m \<le> ?t" using length_meaningful_words_le [of isalnum stop_words tokens] by simp_all
  have "true_div ?m ?t = Inr (round_double (of_int ?m / of_int ?t))"
    using m t by (rule true_div_counts)
  then show ?thesis using t by (simp add: filling_percentage_of_def Let_def)
qed

text \<open>
  Claim C2, as amended. With \<open>t\<close> tokens of which \<open>m\<close> are meaningful (alphanumeric and
  not a stop word), the scorer always returns an integer in \<open>[0, 100]\<close>; it returns 0 when
  \<open>t = 0\<close>; otherwise it returns Python's \<^verbatim>\<open>round\<close> of the double-precision value
  \<^verbatim>\<open>(m / t) * 100\<close>, and for up to \<open>2\<^sup>4\<^sup>4\<close> tokens that is an integer nearest to
  \<open>100 m / t\<close> (at an exact half, either neighbour).
\<close>

theorem filling_percentage_of_score:
  fixes tokens stop_words :: "string list" and isalnum :: "string \<Rightarrow> bool"
  defines "t \<equiv> int (length tokens)"
  defines "m \<equiv> int (length (meaningful_words isalnum stop_words tokens))"
  shows "\<exists>p. filling_percentage_of isalnum stop_words tokens = Inr p
    \<and> 0 \<le> p \<and> p \<le> 100
    \<and> (t = 0 \<longrightarrow> p = 0)
    \<and> (t \<noteq> 0 \<longrightarrow> p = py_round (float_mul (round_double (of_int m / of_int t)) 100))
    \<and> (0 < t \<and> t \<le> 2 ^ 44 \<longrightarrow> \<bar>of_int p - 100 * of_int m / of_int t\<bar> \<le> (1 / 2 :: rat))"
proof (cases "tokens = []")
  case True
  then show ?thesis by (simp add: filling_percentage_of_def t_def)
next
  case False
  let ?x = "round_double (of_int m / of_int t)"
  let ?p = "py_round (float_mul ?x 100)"
  have t: "0 < t" using False by (simp add: t_def)
  have m: "0 \<le> m" "m \<le> t"
    using length_meaningful_words_le [of isalnum stop_words tokens] by (simp_all add: m_def t_def)
  have r: "filling_percentage_of isalnum stop_words tokens = Inr ?p"
    unfolding m_def t_def using False by (rule filling_percentage_of_nonempty)
  have x: "0 \<le> ?x" "?x \<le> 1" by (rule quotient_double_range [OF m t])+
  have y: "0 \<le> float_mul ?x 100" "float_mul ?x 100 \<le> 100" by (rule product_double_range [OF x])+
  have p: "0 \<le> ?p" "?p \<le> 100" by (rule py_round_range [OF y])+
  have n: "t \<le> 2 ^ 44 \<Longrightarrow> \<bar>of_int ?p - 100 * of_int m / of_int t\<bar> \<le> (1 / 2 :: rat)"
    using m t by (rule percentage_nearest)
  show ?thesis using r p n t by simp
qed

theorem filling_percentage_of_score_witness:
  "int (length [''senior'', ''python'', ''developer'', ''in'', ''the'', ''city'', '','', ''kyiv'']) \<noteq> 0
   \<and> 0 < int (length [''senior'', ''python'', ''developer'', ''in'', ''the'', ''city'', '','', ''kyiv''])
   \<and> int (length [''senior'', ''python'', ''developer'', ''in'', ''the'', ''city'', '','', ''kyiv'']) \<le> 2 ^ 44
   \<and> filling_percentage_of (\<lambda>w. w \<noteq> '','') [''in'', ''the'']
         [''senior'', ''python'', ''developer'', ''in'', ''the'', ''city'', '','', ''kyiv''] = Inr 62
   \<and> int (length ([] :: string list)) = 0
   \<and> filling_percentage_of (\<lambda>w. w \<noteq> '','') [''in'', ''the''] [] = Inr 0"
proof -
  have "filling_percentage_of (\<lambda>w. w \<noteq> '','') [''in'', ''the'']
         [''senior'', ''python'', ''developer'', ''in'', ''the'', ''city'', '','', ''kyiv''] = Inr 62"
    by code_simp
  moreover have "filling_percentage_of (\<lambda>w. w \<noteq> '','') [''in'', ''the''] [] = Inr 0"
    by code_simp
  ultimately show ?thesis
    using filling_percentage_of_score [of "(\<lambda>w. w \<noteq> '','')" "[''in'', ''the'']"
        "[''senior'', ''python'', ''developer'', ''in'', ''the'', ''city'', '','', ''kyiv'']"]
      filling_percentage_of_score [of "(\<lambda>w. w \<noteq> '','')" "[''in'', ''the'']" "[]"]
    by simp
qed

text \<open>
  Claim C2 as stated fails: of 200 tokens, 115 meaningful, \<open>100 m / t\<close> is 57.5 and
  rounds to 58 (half to even, and half up as well), but \<^verbatim>\<open>115 / 200\<close> is the double just
  below 0.575, its product with 100 is the double 57.49999999999999, and the scorer
  returns 57.
\<close>

theorem filling_percentage_of_score_counterexample:
  "length (replicate 115 ''python'' @ replicate 85 '','') = 200
   \<and> length (meaningful_words (\<lambda>w. w \<noteq> '','') [''the'']
        (replicate 115 ''python'' @ replicate 85 '','')) = 115
   \<and> filling_percentage_of (\<lambda>w. w \<noteq> '','') [''the'']
        (replicate 115 ''python'' @ replicate 85 '','') = Inr 57
   \<and> round_half_even (100 * 115 / 200) = 58
   \<and> round (100 * 115 / 200 :: rat) = 58"
  by code_simp


section \<open>Properties of the fuzzy vocabulary matcher\<close>

lemma extractOne_scan_best:
  assumes "snd best = score (fst best)"
  shows "snd (extractOne_scan score best choices) = score (fst (extractOne_scan score best choices))
    \<and> fst (extractOne_scan score best choices) \<in> insert (fst best) (set choices)
    \<and> snd best \<le> snd (extractOne_scan score best choices)
    \<and> (\<forall>v \<in> set choices. score v \<le> snd (extractOne_scan score best choices))"
  using assms
proof (induction choices arbitrary: best)
  case Nil
  then show ?case by simp
next
  case (Cons choice choices)
  show ?case
  proof (cases "snd best < score choice")
    case True
    from Cons.IH [of "(choice, score choice)"] True show ?thesis by auto
  next
    case False
    from Cons.IH [OF Cons.prems] False show ?thesis by auto
  qed
qed

lemma extractOne_Some:
  assumes "extractOne scorer (Some q) vocabulary = Some (choice, s)"
  shows "choice \<in> set vocabulary \<and> s = scorer q choice \<and> (\<forall>v \<in> set vocabulary. scorer q v \<le> s)"
proof (cases vocabulary)
  case Nil
  with assms show ?thesis by (simp add: extractOne_def)
next
  case (Cons c cs)
  let ?r = "extractOne_scan (scorer q) (c, scorer q c) cs"
  have r: "?r = (choice, s)" using assms Cons by (simp add: extractOne_def)
  have "snd ?r = scorer q (fst ?r) \<and> fst ?r \<in> insert (fst (c, scorer q c)) (set cs)
      \<and> snd (c, scorer q c) \<le> snd ?r
      \<and> (\<forall>v \<in> set cs. scorer q v \<le> snd ?r)"
    by (rule extractOne_scan_best) simp
  then have a: "s = scorer q choice" and b: "choice \<in> insert c (set cs)" and c: "scorer q c \<le> s"
    and d: "\<forall>v \<in> set cs. scorer q v \<le> s"
    unfolding r by auto
  have "\<forall>v \<in> set (c # cs). scorer q v \<le> s" using c d by simp
  with a b show ?thesis unfolding Cons by simp
qed

lemma extractOne_None:
  "extractOne scorer (Some q) vocabulary = None \<longleftrightarrow> vocabulary = []"
  by (simp add: extractOne_def split: list.splits)

text \<open>
  Claim C3. For every term and every finite vocabulary, the matcher returns an entry of
  the vocabulary exactly when the highest similarity score strictly exceeds the
  threshold, and the entry returned has that highest score; when no score exceeds the
  threshold, and for an empty vocabulary, it returns \<open>None\<close>.
\<close>

theorem get_most_similar_word_threshold:
  fixes threshold :: int and scorer :: "string \<Rightarrow> string \<Rightarrow> rat"
    and word :: string and vocabulary :: "string list"
  defines "result \<equiv> get_most_similar_word threshold scorer (Some word) vocabulary"
  shows "(vocabulary = [] \<longrightarrow> result = None)
    \<and> (\<forall>entry. result = Some entry \<longrightarrow>
          entry \<in> set vocabulary \<and> of_int threshold < scorer word entry
          \<and> (\<forall>v \<in> set vocabulary. scorer word v \<le> scorer word entry))
    \<and> (result = None \<longrightarrow> (\<forall>v \<in> set vocabulary. scorer word v \<le> of_int threshold))"
proof (cases "extractOne scorer (Some word) vocabulary")
  case None
  then have "vocabulary = []" by (simp add: extractOne_None)
  then show ?thesis by (simp add: result_def get_most_similar_word_def extractOne_def)
next
  case (Some m)
  obtain choice s where m: "m = (choice, s)" by (cases m)
  have "choice \<in> set vocabulary \<and> s = scorer word choice
      \<and> (\<forall>v \<in> set vocabulary. scorer word v \<le> s)"
    by (rule extractOne_Some) (simp add: Some m)
  then have e: "choice \<in> set vocabulary" "s = scorer word choice"
      "\<forall>v \<in> set vocabulary. scorer word v \<le> s"
    by blast+
  have r: "result = (if of_int threshold < s then Some choice else None)"
    by (simp add: result_def get_most_similar_word_def Some m)
  show ?thesis
  proof (cases "of_int threshold < s")
    case True
    with r e show ?thesis by auto
  next
    case False
    with r e show ?thesis by fastforce
  qed
qed

theorem get_most_similar_word_threshold_witness:
  "get_most_similar_word 70 (\<lambda>w v. if v = ''Kyiv'' then 89 else 44) (Some ''Kyyiv'') [''Lviv'', ''Kyiv'']
     = Some ''Kyiv''
   \<and> ''Kyiv'' \<in> set [''Lviv'', ''Kyiv'']
   \<and> get_most_similar_word 70 (\<lambda>w v. 20) (Some ''Zzzzzz'') [''Lviv'', ''Kyiv''] = None
   \<and> get_most_similar_word 70 (\<lambda>w v. if v = ''Kyiv'' then 89 else 44) (Some ''Kyyiv'') [] = None"
  using get_most_similar_word_threshold [of "[''Lviv'', ''Kyiv'']" 70 "(\<lambda>w v. if v = ''Kyiv'' then 89 else 44)" "''Kyyiv''"]
    get_most_similar_word_threshold [of "[''Lviv'', ''Kyiv'']" 70 "(\<lambda>w v. 20)" "''Zzzzzz''"]
    get_most_similar_word_threshold [of "[]" 70 "(\<lambda>w v. if v = ''Kyiv'' then 89 else 44)" "''Kyyiv''"]
  by (simp add: get_most_similar_word_def extractOne_def)


section \<open>Properties of the listing-page loop\<close>














section \<open>Properties of dicts and of loops that may raise\<close>

lemma dict_get_dict_set:
  "dict_get (dict_set k v d) k' = (if k' = k then Some v else dict_get d k')"
  by (induction d) (auto simp: dict_get_def)

lemma dict_set_nonempty: "dict_set k v d \<noteq> []"
  by (cases d) (auto split: if_splits)

lemma set_map_filter_iff:
  "y \<in> set (List.map_filter f xs) \<longleftrightarrow> (\<exists>x \<in> set xs. f x = Some y)"
  by (induction xs) (auto split: option.splits)

lemma traverse_Inr_iff:
  "traverse f xs = Inr ys \<longleftrightarrow> list_all2 (\<lambda>x y. f x = Inr y) xs ys"
proof (induction xs arbitrary: ys)
  case Nil
  then show ?case by auto
next
  case (Cons x xs)
  show ?case
  proof (cases "f x")
    case (Inl e)
    then show ?thesis by (auto simp: list_all2_Cons1)
  next
    case (Inr y)
    then show ?thesis using Cons.IH by (cases "traverse f xs") (auto simp: list_all2_Cons1)
  qed
qed

lemma traverse_total:
  assumes "\<forall>x \<in> set xs. \<exists>y. f x = Inr y"
  shows "\<exists>ys. traverse f xs = Inr ys"
  using assms
proof (induction xs)
  case Nil
  then show ?case by simp
next
  case (Cons x xs)
  then obtain y ys where "f x = Inr y" "traverse f xs = Inr ys" by auto
  then show ?case by simp
qed

lemma traverse_Inl:
  assumes "traverse f xs = Inl e"
  shows "\<exists>x \<in> set xs. f x = Inl e"
  using assms
  by (induction xs) (auto split: sum.splits)

section \<open>Properties of the resume parser\<close>

lemma filling_percentage_of_range:
  "\<exists>p. filling_percentage_of isalnum stop_words tokens = Inr p \<and> 0 \<le> p \<and> p \<le> 100"
proof (cases "tokens = []")
  case True
  then show ?thesis by (simp add: filling_percentage_of_def)
next
  case False
  let ?t = "int (length tokens)"
  let ?m = "int (length (meaningful_words isalnum stop_words tokens))"
  let ?x = "round_double (of_int ?m / of_int ?t)"
  have t: "0 < ?t" using False by simp
  have m: "0 \<le> ?m" "?m \<le> ?t"
    using length_meaningful_words_le [of isalnum stop_words tokens] by simp_all
  have x: "0 \<le> ?x" "?x \<le> 1" by (rule quotient_double_range [OF m t])+
  have y: "0 \<le> float_mul ?x 100" "float_mul ?x 100 \<le> 100" by (rule product_double_range [OF x])+
  have "0 \<le> py_round (float_mul ?x 100)" "py_round (float_mul ?x 100) \<le> 100"
    by (rule py_round_range [OF y])+
  then show ?thesis using filling_percentage_of_nonempty [OF False, of isalnum stop_words] by simp
qed

lemma extract_salary_cases:
  "extract_salary sp resume = Inr resume
   \<or> (\<exists>w. extract_salary sp resume = Inr (dict_set ''salary expectation'' (PStr w) resume))
   \<or> extract_salary sp resume = Inl IndexError"
  by (auto simp: extract_salary_def Let_def split: option.splits list.splits)

lemma extract_salary_absent:
  assumes "description_meta sp = None \<or> description_meta sp = Some None
     \<or> (\<exists>c. description_meta sp = Some (Some c) \<and> \<not> contains ''salary starting at'' c)"
  shows "extract_salary sp resume = Inr resume"
proof -
  have "\<not> contains ''salary starting at'' ''''" by simp
  then show ?thesis using assms by (auto simp: extract_salary_def Let_def)
qed

lemma extract_salary_present:
  assumes "description_meta sp = Some (Some c)" "contains ''salary starting at'' c"
    "split_ws (last (split ''salary starting at'' c)) = w # ws"
  shows "extract_salary sp resume = Inr (dict_set ''salary expectation'' (PStr (strip w)) resume)"
  using assms by (simp add: extract_salary_def Let_def)

text \<open>What \<open>parse_resume\<close> returns, in terms of the outcome of the salary step.\<close>

lemma parse_resume_Inr:
  assumes "parse_resume lib sp = Inr parsed"
  obtains resume1 p where
    "extract_salary sp [(''salary_expectation'', PStr ''''), (''experience'', PList []),
        (''filling_percentage'', PInt 0)] = Inr resume1"
    "filling_percentage_of (str_isalnum lib) (nltk_stopwords lib)
        (nltk_word_tokenize lib (str_lower lib (all_text sp))) = Inr p"
    "parsed = dict_set ''filling_percentage'' (PInt p)
        (dict_set ''experience'' (PList (extract_experiences sp)) resume1)"
  using assms by (auto simp: parse_resume_def Let_def split: sum.splits)

lemma parse_resume_fields:
  assumes "parse_resume lib sp = Inr parsed"
  shows "dict_get parsed ''salary_expectation'' = Some (PStr '''')"
    and "dict_get parsed ''experience'' = Some (PList (extract_experiences sp))"
    and "\<exists>p. dict_get parsed ''filling_percentage'' = Some (PInt p) \<and> 0 \<le> p \<and> p \<le> 100"
    and "dict_get parsed ''href'' = None"
    and "parsed \<noteq> []"
proof -
  let ?r0 = "[(''salary_expectation'', PStr ''''), (''experience'', PList []),
        (''filling_percentage'', PInt 0)]"
  obtain resume1 p where s: "extract_salary sp ?r0 = Inr resume1"
    and f: "filling_percentage_of (str_isalnum lib) (nltk_stopwords lib)
        (nltk_word_tokenize lib (str_lower lib (all_text sp))) = Inr p"
    and d: "parsed = dict_set ''filling_percentage'' (PInt p)
        (dict_set ''experience'' (PList (extract_experiences sp)) resume1)"
    using assms by (rule parse_resume_Inr)
  have r1: "resume1 = ?r0 \<or> (\<exists>w. resume1 = dict_set ''salary expectation'' (PStr w) ?r0)"
    using extract_salary_cases [of sp ?r0] s by auto
  have g1: "dict_get resume1 ''salary_expectation'' = Some (PStr '''')" "dict_get resume1 ''href'' = None"
    using r1 by (auto simp: dict_get_def)
  show "dict_get parsed ''salary_expectation'' = Some (PStr '''')"
    unfolding d using g1 by (simp add: dict_get_dict_set)
  show "dict_get parsed ''experience'' = Some (PList (extract_experiences sp))"
    unfolding d by (simp add: dict_get_dict_set)
  have "0 \<le> p \<and> p \<le> 100"
    using filling_percentage_of_range [of "str_isalnum lib" "nltk_stopwords lib"
        "nltk_word_tokenize lib (str_lower lib (all_text sp))"] f by simp
  then show "\<exists>p. dict_get parsed ''filling_percentage'' = Some (PInt p) \<and> 0 \<le> p \<and> p \<le> 100"
    unfolding d by (simp add: dict_get_dict_set)
  show "dict_get parsed ''href'' = None"
    unfolding d using g1 by (simp add: dict_get_dict_set)

  show "parsed \<noteq> []" unfolding d by (rule dict_set_nonempty)

qed

lemma Experience_init_extract:
  assumes "extract_experience ptag = Some v"
  shows "\<exists>dtag. details_tag ptag = Some dtag
    \<and> Experience_init v = Inr \<lparr>position = Some (strip (position_text ptag)),
         duration = map_option format_experience_detail (duration_tag dtag),
         details = Some (format_experience_detail
           (replace (case duration_tag dtag of None \<Rightarrow> '''' | Some d \<Rightarrow> format_experience_detail d) ''''
              (details_text dtag)))\<rparr>"
  using assms
  by (auto simp: extract_experience_def Experience_init_def optional_str_def dict_get_def Let_def
      split: option.splits)

lemma extract_experiences_valid:
  "\<exists>es. traverse Experience_init (extract_experiences sp) = Inr es"
proof (rule traverse_total, rule ballI)
  fix v assume "v \<in> set (extract_experiences sp)"
  then obtain ptag where "extract_experience ptag = Some v"
    by (auto simp: extract_experiences_def set_map_filter_iff split: option.splits)
  then show "\<exists>e. Experience_init v = Inr e" using Experience_init_extract by blast
qed

text \<open>Every dict that \<open>parse_resume\<close> returns passes the validation of the record.\<close>

lemma Resume_init_parsed:
  assumes "parse_resume lib sp = Inr parsed"
  shows "\<exists>es p. traverse Experience_init (extract_experiences sp) = Inr es
    \<and> 0 \<le> p \<and> p \<le> 100
    \<and> Resume_init ((''href'', PStr h) # parsed) =
        Inr \<lparr>href = h, salary_expectation = Some '''', experience = Some es, filling_percentage = p\<rparr>"
proof -
  obtain es where es: "traverse Experience_init (extract_experiences sp) = Inr es"
    using extract_experiences_valid by blast
  obtain p where p: "dict_get parsed ''filling_percentage'' = Some (PInt p)" "0 \<le> p" "p \<le> 100"
    using parse_resume_fields(3) [OF assms] by blast
  have g: "dict_get ((''href'', PStr h) # parsed) ''href'' = Some (PStr h)"
    "dict_get ((''href'', PStr h) # parsed) ''salary_expectation'' = Some (PStr '''')"
    "dict_get ((''href'', PStr h) # parsed) ''experience'' = Some (PList (extract_experiences sp))"
    "dict_get ((''href'', PStr h) # parsed) ''filling_percentage'' = Some (PInt p)"
    using parse_resume_fields(1,2) [OF assms] p(1) by (simp_all add: dict_get_def)
  have "Resume_init ((''href'', PStr h) # parsed) =
        Inr \<lparr>href = h, salary_expectation = Some '''', experience = Some es, filling_percentage = p\<rparr>"
    by (simp add: Resume_init_def g optional_str_def optional_experience_list_def es)
  then show ?thesis using es p(2,3) by blast
qed

lemma list_all2_member:
  assumes "list_all2 P xs ys" "y \<in> set ys"
  shows "\<exists>x \<in> set xs. P x y"
  using assms by (induction rule: list_all2_induct) auto

lemma traverse_member:
  assumes "traverse f xs = Inr ys" "y \<in> set ys"
  shows "\<exists>x \<in> set xs. f x = Inr y"
  using assms list_all2_member [of "\<lambda>x y. f x = Inr y" xs ys y] by (simp add: traverse_Inr_iff)

lemma build_resume_Some:
  assumes "build_resume lib site base_url hrefs (i, resume_html) = Inr (Some r)"
  shows "\<exists>parsed link. parse_resume lib (soup_of site resume_html) = Inr parsed
    \<and> list_item hrefs (i - 1) = Inr link
    \<and> Resume_init ((''href'', PStr (base_url @ link)) # parsed) = Inr r"
  using assms by (auto simp: build_resume_def split: sum.splits if_splits)

text \<open>Every record of a search result was built from a parsed detail page.\<close>

lemma wu_search_resumes_member:
  assumes "wu_search_resumes lib cfg site base_url params = Inr rs" "r \<in> set rs"
  shows "\<exists>resume_html parsed link.
    parse_resume lib (soup_of site resume_html) = Inr parsed
    \<and> Resume_init ((''href'', PStr (base_url @ link)) # parsed) = Inr r"
proof -
  obtain page_htmls where pg: "snd (get_resume_pages cfg site params) = Inr page_htmls"
    using assms(1) by (auto simp: wu_search_resumes_def split: sum.splits)
  define hrefs where "hrefs = concat (map (resume_hrefs site) page_htmls)"
  define resume_htmls where "resume_htmls = fetch_resume_htmls site hrefs"
  obtain built where b: "traverse (build_resume lib site base_url hrefs)
      (zip [1 ..< Suc (length resume_htmls)] resume_htmls) = Inr built"
    and rs: "rs = List.map_filter id built"
    using assms(1) pg
    by (auto simp: wu_search_resumes_def Let_def hrefs_def resume_htmls_def split: sum.splits)
  have "Some r \<in> set built" using assms(2) unfolding rs by (simp add: set_map_filter_iff)
  then obtain entry where "build_resume lib site base_url hrefs entry = Inr (Some r)"
    using traverse_member [OF b] by blast
  then obtain i resume_html where "build_resume lib site base_url hrefs (i, resume_html) = Inr (Some r)"
    by (cases entry) auto
  then show ?thesis using build_resume_Some by blast
qed


section \<open>Properties of the Robota.ua unpacking\<close>







text \<open>
  \<open>parse_resume\<close> raises in one case only: the description holds the salary phrase with
  no word after its last occurrence.
\<close>

lemma extract_salary_returns:
  assumes "description_meta sp = None \<or> description_meta sp = Some None
     \<or> (\<exists>c. description_meta sp = Some (Some c)
           \<and> (\<not> contains ''salary starting at'' c
              \<or> split_ws (last (split ''salary starting at'' c)) \<noteq> []))"
  shows "\<exists>resume1. extract_salary sp resume = Inr resume1"
proof (cases "description_meta sp = None \<or> description_meta sp = Some None
     \<or> (\<exists>c. description_meta sp = Some (Some c) \<and> \<not> contains ''salary starting at'' c)")
  case True
  then have "extract_salary sp resume = Inr resume" by (rule extract_salary_absent)
  then show ?thesis by blast
next
  case False
  with assms obtain c where c: "description_meta sp = Some (Some c)"
    "contains ''salary starting at'' c"
    "split_ws (last (split ''salary starting at'' c)) \<noteq> []"
    by blast
  then obtain w ws where "split_ws (last (split ''salary starting at'' c)) = w # ws"
    by (cases "split_ws (last (split ''salary starting at'' c))") simp_all
  then have "extract_salary sp resume = Inr (dict_set ''salary expectation'' (PStr (strip w)) resume)"
    using c(1,2) by (intro extract_salary_present)
  then show ?thesis by blast
qed


lemma parse_resume_raises:
  assumes "parse_resume lib sp = Inl e"
  shows "e = IndexError \<and> (\<exists>c. description_meta sp = Some (Some c)
    \<and> contains ''salary starting at'' c
    \<and> split_ws (last (split ''salary starting at'' c)) = [])"
proof -
  let ?r0 = "[(''salary_expectation'', PStr ''''), (''experience'', PList []),
       (''filling_percentage'', PInt 0)]"
  obtain p where p: "filling_percentage_of (str_isalnum lib) (nltk_stopwords lib)
        (nltk_word_tokenize lib (str_lower lib (all_text sp))) = Inr p"
    using filling_percentage_of_range by blast
  have s: "extract_salary sp ?r0 = Inl e"
    using assms p by (cases "extract_salary sp ?r0") (simp_all add: parse_resume_def Let_def)
  then have "e = IndexError" using extract_salary_cases [of sp ?r0] by auto
  moreover have "\<exists>c. description_meta sp = Some (Some c)
    \<and> contains ''salary starting at'' c
    \<and> split_ws (last (split ''salary starting at'' c)) = []"
  proof (rule ccontr)
    assume n: "\<not> (\<exists>c. description_meta sp = Some (Some c)
      \<and> contains ''salary starting at'' c
      \<and> split_ws (last (split ''salary starting at'' c)) = [])"
    have "description_meta sp = None \<or> description_meta sp = Some None
     \<or> (\<exists>c. description_meta sp = Some (Some c)
           \<and> (\<not> contains ''salary starting at'' c
              \<or> split_ws (last (split ''salary starting at'' c)) \<noteq> []))"
    proof (cases "description_meta sp")
      case None
      then show ?thesis by simp
    next
      case (Some content)
      show ?thesis
      proof (cases content)
        case None
        with Some show ?thesis by simp
      next
        case (Some c)
        with \<open>description_meta sp = Some content\<close> n show ?thesis by blast
      qed
    qed
    then obtain resume1 where "extract_salary sp ?r0 = Inr resume1"
      using extract_salary_returns by blast
    with s show False by simp
  qed
  ultimately show ?thesis by blast
qed




section \<open>Claims about the records of the two adapters\<close>

lemma example_parse:
  "parse_resume example_nlp example_soup =
     Inr [(''salary_expectation'', PStr ''''),
          (''experience'', PList [PDict [(''position'', PStr ''Welder''),
                                         (''duration'', PStr ''2 years''),
                                         (''details'', PStr ''Plant'')]]),
          (''filling_percentage'', PInt 57),
          (''salary expectation'', PStr ''25000'')]"
  by code_simp

lemma example_search:
  "wu_search_resumes example_nlp example_config example_site ''https://www.work.ua'' example_params =
     Inr [\<lparr>href = ''https://www.work.ua/resumes/1/'', salary_expectation = Some '''',
           experience = Some [\<lparr>position = Some ''Welder'', duration = Some ''2 years'',
                                details = Some ''Plant''\<rparr>],
           filling_percentage = 57\<rparr>]"
  by code_simp


text \<open>
  Claim C9. In the document-scraping parse path the extracted salary is written under
  the key \<open>''salary expectation''\<close> (with a space) and not under \<open>''salary_expectation''\<close>:
  whatever the page, the dict returned by \<open>parse_resume\<close> keeps the empty string under
  \<open>''salary_expectation''\<close>, the record built from it has the empty string as its
  \<open>salary_expectation\<close>, also when the page carries a salary (which is then found under
  the other key), and so has every record that the adapter's search returns.
\<close>

theorem salary_expectation_never_set:
  "(parse_resume lib sp = Inr parsed \<longrightarrow>
      dict_get parsed ''salary_expectation'' = Some (PStr '''')
      \<and> (\<forall>h r. Resume_init ((''href'', PStr h) # parsed) = Inr r \<longrightarrow> salary_expectation r = Some '''')
      \<and> (\<forall>c w ws. description_meta sp = Some (Some c) \<and> contains ''salary starting at'' c
             \<and> split_ws (last (split ''salary starting at'' c)) = w # ws \<longrightarrow>
           dict_get parsed ''salary expectation'' = Some (PStr (strip w))))
   \<and> (wu_search_resumes lib cfg site base_url params = Inr rs \<longrightarrow>
        (\<forall>r \<in> set rs. salary_expectation r = Some ''''))"
proof -
  have a: "salary_expectation r = Some ''''"
    if "parse_resume lib' sp' = Inr parsed'" "Resume_init ((''href'', PStr h) # parsed') = Inr r"
    for lib' sp' parsed' h r
    using Resume_init_parsed [OF that(1), of h] that(2) by auto
  have b: "dict_get parsed ''salary expectation'' = Some (PStr (strip w))"
    if p: "parse_resume lib sp = Inr parsed" and m: "description_meta sp = Some (Some c)"
      "contains ''salary starting at'' c" "split_ws (last (split ''salary starting at'' c)) = w # ws"
    for c w ws
  proof -
    let ?r0 = "[(''salary_expectation'', PStr ''''), (''experience'', PList []),
        (''filling_percentage'', PInt 0)]"
    obtain resume1 q where s: "extract_salary sp ?r0 = Inr resume1"
      and d: "parsed = dict_set ''filling_percentage'' (PInt q)
        (dict_set ''experience'' (PList (extract_experiences sp)) resume1)"
      using p by (rule parse_resume_Inr)
    have "resume1 = dict_set ''salary expectation'' (PStr (strip w)) ?r0"
      using s extract_salary_present [OF m, of ?r0] by simp
    then show ?thesis unfolding d by (simp add: dict_get_dict_set dict_get_def)
  qed
  have c: "salary_expectation r = Some ''''"
    if "wu_search_resumes lib cfg site base_url params = Inr rs" "r \<in> set rs" for r
    using wu_search_resumes_member [OF that] a by blast
  show ?thesis using a b c parse_resume_fields(1) by blast
qed

theorem salary_expectation_never_set_witness:
  "parse_resume example_nlp example_soup =
     Inr [(''salary_expectation'', PStr ''''),
          (''experience'', PList [PDict [(''position'', PStr ''Welder''),
                                         (''duration'', PStr ''2 years''),
                                         (''details'', PStr ''Plant'')]]),
          (''filling_percentage'', PInt 57),
          (''salary expectation'', PStr ''25000'')]
   \<and> description_meta example_soup = Some (Some ''Resume of a welder, salary starting at 25000 UAH'')
   \<and> contains ''salary starting at'' ''Resume of a welder, salary starting at 25000 UAH''
   \<and> split_ws (last (split ''salary starting at'' ''Resume of a welder, salary starting at 25000 UAH''))
       = [''25000'', ''UAH'']
   \<and> wu_search_resumes example_nlp example_config example_site ''https://www.work.ua'' example_params =
     Inr [\<lparr>href = ''https://www.work.ua/resumes/1/'', salary_expectation = Some '''',
           experience = Some [\<lparr>position = Some ''Welder'', duration = Some ''2 years'',
                                details = Some ''Plant''\<rparr>],
           filling_percentage = 57\<rparr>]
   \<and> salary_expectation
        \<lparr>href = ''https://www.work.ua/resumes/1/'', salary_expectation = Some '''',
           experience = Some [\<lparr>position = Some ''Welder'', duration = Some ''2 years'',
                                details = Some ''Plant''\<rparr>],
           filling_percentage = 57\<rparr> = Some ''''"
proof -
  have c: "contains ''salary starting at'' ''Resume of a welder, salary starting at 25000 UAH''"
    by code_simp
  have s: "split_ws (last (split ''salary starting at'' ''Resume of a welder, salary starting at 25000 UAH''))
       = [''25000'', ''UAH'']"
    by code_simp
  show ?thesis
    using salary_expectation_never_set [of example_nlp example_soup _ example_config example_site
        "''https://www.work.ua''" example_params]
      example_parse example_search c s
    by simp
qed









section \<open>Properties of the outgoing filters\<close>











section \<open>Properties of the caller\<close>

lemma top_resumes_nonempty:
  assumes "w \<noteq> [] \<or> r \<noteq> []"
  shows "top_resumes w r \<noteq> []"
proof -
  have "length (combined_results w r) = length (w @ r)"
    unfolding combined_results_def using sort_reverse_mset [of "w @ r"] by (rule mset_eq_length)
  then have "combined_results w r \<noteq> []" using assms by auto
  then show ?thesis by (simp add: top_resumes_def)
qed

lemma length_combined_results:
  "length (combined_results w r) = length w + length r"
proof -
  have "length (combined_results w r) = length (w @ r)"
    unfolding combined_results_def using sort_reverse_mset [of "w @ r"] by (rule mset_eq_length)
  then show ?thesis by simp
qed

text \<open>
  Claim C8, as amended. The caller invokes the two adapters one after the other with no
  handler around either call: when an adapter raises, the caller raises the same
  exception and returns no list, whatever the other adapter would return. When both
  adapters succeed, the caller returns the ranked list built from both result lists, and
  that list is non-empty as soon as one of the two result lists is.
\<close>

theorem one_source_failing:
  "dict_get search_options ''search'' \<noteq> None \<and> validate search_options = Inr params \<longrightarrow>
     (\<forall>e. work_ua params = Inl e \<longrightarrow>
        bot_search_resumes validate work_ua robota_ua search_options = Inl e)
     \<and> (\<forall>w e. work_ua params = Inr w \<and> robota_ua params = Inl e \<longrightarrow>
        bot_search_resumes validate work_ua robota_ua search_options = Inl e)
     \<and> (\<forall>w r. work_ua params = Inr w \<and> robota_ua params = Inr r \<longrightarrow>
        bot_search_resumes validate work_ua robota_ua search_options =
          Inr (Found (length w + length r) (top_resumes w r))
        \<and> (w \<noteq> [] \<or> r \<noteq> [] \<longrightarrow> top_resumes w r \<noteq> []))"
  using top_resumes_nonempty
  by (auto simp: bot_search_resumes_def length_combined_results)

theorem one_source_failing_witness:
  "dict_get [(''search'', PStr ''welder'')] ''search'' \<noteq> None
   \<and> bot_search_resumes (\<lambda>d. Inr example_params) (\<lambda>p. Inr []) (\<lambda>p. Inl RequestException)
        [(''search'', PStr ''welder'')] = Inl RequestException
   \<and> bot_search_resumes (\<lambda>d. Inr example_params) (\<lambda>p. Inl RequestException) (\<lambda>p. Inr [])
        [(''search'', PStr ''welder'')] = Inl RequestException
   \<and> bot_search_resumes (\<lambda>d. Inr example_params) (\<lambda>p. Inr [])
        (\<lambda>p. Inr [\<lparr>href = ''https://robota.ua/candidates/7'', salary_expectation = Some '''',
                    experience = Some [], filling_percentage = 85\<rparr>])
        [(''search'', PStr ''welder'')] =
       Inr (Found 1 [\<lparr>href = ''https://robota.ua/candidates/7'', salary_expectation = Some '''',
                       experience = Some [], filling_percentage = 85\<rparr>])"
  using one_source_failing [of "[(''search'', PStr ''welder'')]" "(\<lambda>d. Inr example_params)" example_params
      "(\<lambda>p. Inr [])" "(\<lambda>p. Inl RequestException)"]
    one_source_failing [of "[(''search'', PStr ''welder'')]" "(\<lambda>d. Inr example_params)" example_params
      "(\<lambda>p. Inl RequestException)" "(\<lambda>p. Inr [])"]
    one_source_failing [of "[(''search'', PStr ''welder'')]" "(\<lambda>d. Inr example_params)" example_params
      "(\<lambda>p. Inr [])"
      "(\<lambda>p. Inr [\<lparr>href = ''https://robota.ua/candidates/7'', salary_expectation = Some '''',
                    experience = Some [], filling_percentage = 85\<rparr>])"]
  by (simp add: dict_get_def top_resumes_def combined_results_def sort_reverse_def sort_lt_def)

text \<open>
  Claim C8 as stated fails: when the Work.ua adapter raises and the Robota.ua adapter
  would return one record, the caller raises and returns no list (the second adapter is
  not even called); likewise when the Robota.ua adapter raises after the Work.ua adapter
  has returned one record.
\<close>

theorem one_source_failing_counterexample:
  "bot_search_resumes (\<lambda>d. Inr example_params) (\<lambda>p. Inl RequestException)
        (\<lambda>p. Inr [\<lparr>href = ''https://robota.ua/candidates/7'', salary_expectation = Some '''',
                    experience = Some [], filling_percentage = 85\<rparr>])
        [(''search'', PStr ''welder'')] = Inl RequestException
   \<and> bot_search_resumes (\<lambda>d. Inr example_params)
        (\<lambda>p. Inr [\<lparr>href = ''https://www.work.ua/resumes/1/'', salary_expectation = Some '''',
                    experience = Some [], filling_percentage = 57\<rparr>])
        (\<lambda>p. Inl RequestException)
        [(''search'', PStr ''welder'')] = Inl RequestException"
  by (simp add: bot_search_resumes_def dict_get_def)


section \<open>Properties of the Work.ua search\<close>

lemma build_resume_result:
  assumes "build_resume lib site base_url hrefs (i, resume_html) = Inr res"
  shows "\<exists>r. res = Some r \<and> href r = base_url @ hrefs ! (i - 1) \<and> i - 1 < length hrefs"
proof -
  obtain parsed where p: "parse_resume lib (soup_of site resume_html) = Inr parsed"
    using assms by (cases "parse_resume lib (soup_of site resume_html)") (simp_all add: build_resume_def)
  have ne: "parsed \<noteq> []" using p by (rule parse_resume_fields(5))
  obtain link where l: "list_item hrefs (i - 1) = Inr link"
    using assms p ne by (cases "list_item hrefs (i - 1)") (simp_all add: build_resume_def)
  then have link: "link = hrefs ! (i - 1)" "i - 1 < length hrefs"
    by (auto simp: list_item_def split: if_splits)
  obtain es q where "Resume_init ((''href'', PStr (base_url @ link)) # parsed) =
      Inr \<lparr>href = base_url @ link, salary_expectation = Some '''', experience = Some es,
           filling_percentage = q\<rparr>"
    using Resume_init_parsed [OF p, of "base_url @ link"] by blast
  then have "res = Some \<lparr>href = base_url @ link, salary_expectation = Some '''', experience = Some es,
           filling_percentage = q\<rparr>"
    using assms p ne l by (simp add: build_resume_def)
  then show ?thesis using link by simp
qed

lemma fetch_resume_htmls_length: "length (fetch_resume_htmls site hrefs) \<le> length hrefs"
  unfolding fetch_resume_htmls_def
  by (induction hrefs) (auto split: option.splits)

text \<open>
  The records of a search carry the first listing links in order, as many as detail
  pages were fetched, whichever links those pages were fetched from.
\<close>

lemma wu_search_resumes_hrefs:
  assumes "snd (get_resume_pages cfg site params) = Inr page_htmls"
    and "wu_search_resumes lib cfg site base_url params = Inr rs"
  shows "map href rs =
    map ((@) base_url)
      (take (length (fetch_resume_htmls site (concat (map (resume_hrefs site) page_htmls))))
         (concat (map (resume_hrefs site) page_htmls)))"
proof -
  define hrefs where "hrefs = concat (map (resume_hrefs site) page_htmls)"
  define hs where "hs = fetch_resume_htmls site hrefs"
  define n where "n = length hs"
  have n: "n \<le> length hrefs" unfolding n_def hs_def by (rule fetch_resume_htmls_length)
  obtain built where b: "traverse (build_resume lib site base_url hrefs) (zip [1 ..< Suc n] hs) = Inr built"
    and rs: "rs = List.map_filter id built"
    using assms
    by (auto simp: wu_search_resumes_def Let_def hrefs_def hs_def n_def split: sum.splits)
  have l: "list_all2 (\<lambda>entry res. build_resume lib site base_url hrefs entry = Inr res)
      (zip [1 ..< Suc n] hs) built"
    using b by (simp add: traverse_Inr_iff)
  have len: "length built = n"
    using list_all2_lengthD [OF l] by (simp add: n_def del: upt_Suc)
  have nth: "\<exists>r. built ! j = Some r \<and> href r = base_url @ hrefs ! j" if j: "j < n" for j
  proof -
    have "zip [1 ..< Suc n] hs ! j = (Suc j, hs ! j)"
      using j by (simp add: n_def nth_upt del: upt_Suc)
    moreover have "build_resume lib site base_url hrefs (zip [1 ..< Suc n] hs ! j) = Inr (built ! j)"
      using l j by (simp add: list_all2_conv_all_nth n_def del: upt_Suc)

    ultimately have "build_resume lib site base_url hrefs (Suc j, hs ! j) = Inr (built ! j)" by simp
    then show ?thesis using build_resume_result by fastforce
  qed
  have all: "\<forall>x \<in> set built. x \<noteq> None"
  proof
    fix x assume "x \<in> set built"
    then obtain j where "j < n" "built ! j = x" using len by (auto simp: in_set_conv_nth)
    then show "x \<noteq> None" using nth by fastforce
  qed
  have m: "List.map_filter id built = map the built"
    using all by (induction built) auto
  show ?thesis
  proof (rule nth_equalityI)
    show "length (map href rs) =
      length (map ((@) base_url) (take (length (fetch_resume_htmls site
        (concat (map (resume_hrefs site) page_htmls)))) (concat (map (resume_hrefs site) page_htmls))))"
      using n len by (simp add: rs m hrefs_def [symmetric] hs_def [symmetric] n_def [symmetric])
  next
    fix j assume "j < length (map href rs)"
    then have j: "j < n" using len by (simp add: rs m)
    obtain r where r: "built ! j = Some r" "href r = base_url @ hrefs ! j" using nth [OF j] by blast
    have "map href rs ! j = href (the (built ! j))" using j len by (simp add: rs m)
    also have "\<dots> = base_url @ hrefs ! j" using r by simp
    also have "\<dots> = map ((@) base_url) (take n hrefs) ! j" using j n by simp
    finally show "map href rs ! j =
      map ((@) base_url) (take (length (fetch_resume_htmls site
        (concat (map (resume_hrefs site) page_htmls)))) (concat (map (resume_hrefs site) page_htmls))) ! j"
      by (simp add: hrefs_def [symmetric] hs_def [symmetric] n_def [symmetric])
  qed
qed

text \<open>
  Claim C10. The claim fails as soon as a detail page is dropped: the listing has the
  links \<open>/resumes/1/\<close> and \<open>/resumes/2/\<close>, the first detail page cannot be
  fetched, and the record parsed from the page of \<open>/resumes/2/\<close> is returned with the
  \<open>href\<close> of \<open>/resumes/1/\<close>, because \<open>hrefs[i - 1]\<close> is indexed by the position among the
  fetched pages.
\<close>

theorem search_resumes_href_of_dropped_page:
  "concat (map (resume_hrefs example_site) [''2 candidates'']) = [''/resumes/1/'', ''/resumes/2/'']
   \<and> resume_page example_site ''/resumes/1/'' = None
   \<and> resume_page example_site ''/resumes/2/'' = Some ''resume 2''
   \<and> fetch_resume_htmls example_site [''/resumes/1/'', ''/resumes/2/''] = [''resume 2'']
   \<and> wu_search_resumes example_nlp example_config example_site ''https://www.work.ua'' example_params =
       Inr [\<lparr>href = ''https://www.work.ua/resumes/1/'', salary_expectation = Some '''',
             experience = Some [\<lparr>position = Some ''Welder'', duration = Some ''2 years'',
                                  details = Some ''Plant''\<rparr>],
             filling_percentage = 57\<rparr>]"
  by code_simp


end
